theory Spec2Isabelle
  imports Main "HOL-Library.Sublist"
begin

section \<open>The htaccess integration of astro-htaccess (src/src/htaccess.ts)\<close>

text \<open>
  The integration collects directive lines from four sources (custom rules, user error
  pages, the generator's routes, user redirects) and appends them to the file
  \<^verbatim>\<open>.htaccess\<close> of the build output. JavaScript strings are modelled as
  \<^typ>\<open>string\<close>; nothing below depends on the alphabet beyond the ASCII characters the
  code names.
\<close>

subsection \<open>JavaScript string operations used by the integration\<close>

definition backslash :: char where
  "backslash = CHR 0x5C"

definition line_feed :: char where
  "line_feed = CHR 0x0A"

text \<open>\<^verbatim>\<open>s.endsWith(suf)\<close> and \<^verbatim>\<open>s.startsWith(pre)\<close>.\<close>

definition endsWith :: "string \<Rightarrow> string \<Rightarrow> bool" where
  "endsWith s suf = (length suf \<le> length s \<and> drop (length s - length suf) s = suf)"

definition startsWith :: "string \<Rightarrow> string \<Rightarrow> bool" where
  "startsWith s pre = (take (length pre) s = pre)"

text \<open>\<^verbatim>\<open>s.slice(start, end)\<close>: negative indices count from the end, both are clamped.\<close>

definition String_slice :: "string \<Rightarrow> int \<Rightarrow> int \<Rightarrow> string" where
  "String_slice s start fin =
     (let len = int (length s);
          from = (if start < 0 then max (len + start) 0 else min start len);
          to = (if fin < 0 then max (len + fin) 0 else min fin len)
      in take (nat (to - from)) (drop (nat from) s))"

text \<open>
  \<^verbatim>\<open>s.replaceAll(pat, rep)\<close> for a string pattern and a replacement without
  \<^verbatim>\<open>$\<close> patterns: occurrences are replaced from left to right without overlap; an
  empty pattern matches between all characters.
\<close>

function String_replaceAll :: "string \<Rightarrow> string \<Rightarrow> string \<Rightarrow> string" where
  "String_replaceAll pat rep s =
     (if pat = [] then rep @ concat (map (\<lambda>c. c # rep) s)
      else if s = [] then []
      else if prefix pat s then rep @ String_replaceAll pat rep (drop (length pat) s)
      else hd s # String_replaceAll pat rep (tl s))"
  by pat_completeness auto
termination
  by (relation "measure (\<lambda>(pat, rep, s). length s)") auto

declare String_replaceAll.simps [simp del]

text \<open>\<^verbatim>\<open>lines.join(sep)\<close> of an array of strings.\<close>

fun Array_join :: "string list \<Rightarrow> string \<Rightarrow> string" where
  "Array_join [] sep = []"
| "Array_join [x] sep = x"
| "Array_join (x # y # ys) sep = x @ sep @ Array_join (y # ys) sep"

text \<open>The text of a string cut at every occurrence of a separator character.\<close>

fun split_at :: "char \<Rightarrow> string \<Rightarrow> string list" where
  "split_at sep [] = [[]]"
| "split_at sep (c # cs) =
     (if c = sep then [] # split_at sep cs
      else (case split_at sep cs of [] \<Rightarrow> [[c]] | x # xs \<Rightarrow> (c # x) # xs))"

subsection \<open>Numbers in template literals\<close>

text \<open>The decimal digits, in order; a digit's character and a character's digit.\<close>

definition decimal_digits :: string where
  "decimal_digits = ''0123456789''"

definition digit_char :: "nat \<Rightarrow> char" where
  "digit_char d = decimal_digits ! (d mod 10)"

definition is_digit :: "char \<Rightarrow> bool" where
  "is_digit c = (c \<in> set decimal_digits)"

definition digit_value :: "char \<Rightarrow> nat" where
  "digit_value c = length (takeWhile (\<lambda>d. d \<noteq> c) decimal_digits)"

text \<open>
  \<^verbatim>\<open>`${n}`\<close> for a non-negative integer \<open>n\<close>: its decimal digits (the error codes and
  the rule count are far below the magnitude at which JavaScript switches to exponent
  notation).
\<close>

fun Number_toString :: "nat \<Rightarrow> string" where
  "Number_toString n =
     (if n < 10 then [digit_char n]
      else Number_toString (n div 10) @ [digit_char (n mod 10)])"

declare Number_toString.simps [simp del]

text \<open>
  \<^verbatim>\<open>parseInt(s)\<close> on the capture of \<^verbatim>\<open>errorPageRegex\<close>, which is three decimal digits:
  the value of the leading run of digits. Signs, white space, radix prefixes and
  \<^verbatim>\<open>NaN\<close> do not arise at this call site.
\<close>

definition parseInt :: "string \<Rightarrow> nat" where
  "parseInt s = foldl (\<lambda>acc c. 10 * acc + digit_value c) 0 (takeWhile is_digit s)"

subsection \<open>path.posix.join of Node.js\<close>

text \<open>
  \<^verbatim>\<open>node:path\<close> is the platform's library, not code of the repository. It is modelled
  by what its \<^verbatim>\<open>normalizeString\<close> loop computes on the segments between slashes: an
  empty segment and \<^verbatim>\<open>.\<close> are dropped, \<^verbatim>\<open>..\<close> removes the segment before it (above the
  root of an absolute path it is dropped, in a relative path it is kept), every other
  segment is kept.
\<close>

fun normalizeString :: "bool \<Rightarrow> string list \<Rightarrow> string list \<Rightarrow> string list" where
  "normalizeString allowAboveRoot res [] = res"
| "normalizeString allowAboveRoot res (seg # segs) =
     (if seg = [] \<or> seg = ''.'' then normalizeString allowAboveRoot res segs
      else if seg = ''..'' then
        (if res \<noteq> [] \<and> last res \<noteq> ''..''
           then normalizeString allowAboveRoot (butlast res) segs
         else if allowAboveRoot then normalizeString allowAboveRoot (res @ [''..'']) segs
         else normalizeString allowAboveRoot res segs)
      else normalizeString allowAboveRoot (res @ [seg]) segs)"

definition posix_normalize :: "string \<Rightarrow> string" where
  "posix_normalize path =
     (if path = [] then ''.''
      else
        (let isAbsolute = (hd path = CHR ''/'');
             trailingSeparator = (last path = CHR ''/'');
             p = Array_join (normalizeString (\<not> isAbsolute) [] (split_at CHR ''/'' path)) ''/''
         in if p = [] then (if isAbsolute then ''/'' else if trailingSeparator then ''./'' else ''.'')
            else (let p' = (if trailingSeparator then p @ ''/'' else p)
                  in if isAbsolute then CHR ''/'' # p' else p')))"

definition pathPosix_join :: "string list \<Rightarrow> string" where
  "pathPosix_join args =
     (let joined = Array_join (filter (\<lambda>arg. arg \<noteq> []) args) ''/''
      in if joined = [] then ''.'' else posix_normalize joined)"

text \<open>
  Line 111: the document of a user error page,
  \<^verbatim>\<open>pathPosix.join("/", document.endsWith(".html") ? document : `${document}.html`)\<close>.
\<close>

definition document_path :: "string \<Rightarrow> string" where
  "document_path document =
     pathPosix_join [''/'', if endsWith document ''.html'' then document else document @ ''.html'']"

subsection \<open>The two regular expressions (lines 39 and 40)\<close>

text \<open>
  \<^verbatim>\<open>errorPageRegex = /^\/([345]\d\d)$/\<close>; \<^verbatim>\<open>route.match(errorPageRegex)\<close> is the capture,
  or nothing when the route does not match. Without the \<^verbatim>\<open>m\<close> flag the anchors are the two
  ends of the route.
\<close>

definition errorPageRegex_match :: "string \<Rightarrow> string option" where
  "errorPageRegex_match route =
     (case route of
        [s, a, b, c] \<Rightarrow>
          if s = CHR ''/'' \<and> a \<in> set ''345'' \<and> is_digit b \<and> is_digit c
          then Some [a, b, c] else None
      | _ \<Rightarrow> None)"

text \<open>
  \<^verbatim>\<open>spaceInCharacterMatchingRegex = /([^\\]|^)\[((?:\\\]|[^ ])*) ((?:\\\]|[^ ])*)\]/g\<close>.
  The matcher is a backtracking one: each piece of the pattern gives the list of the
  inputs that can remain after it, in the order in which the engine tries them.

  \<open>bracket_items\<close> is the greedy \<^verbatim>\<open>(?:\\\]|[^ ])*\<close>: one more item first (the two
  characters \<^verbatim>\<open>\]\<close> before any single character but a space), then none.
\<close>

fun bracket_items :: "string \<Rightarrow> string list" where
  "bracket_items [] = [[]]"
| "bracket_items [c] = (if c \<noteq> CHR '' '' then bracket_items [] else []) @ [[c]]"
| "bracket_items (c # d # cs) =
     (if c = backslash \<and> d = CHR '']'' then bracket_items cs else [])
     @ (if c \<noteq> CHR '' '' then bracket_items (d # cs) else [])
     @ [c # d # cs]"

text \<open>What a piece consumed, given its input and the input that remains after it.\<close>

definition consumed :: "string \<Rightarrow> string \<Rightarrow> string" where
  "consumed input remaining = take (length input - length remaining) input"

text \<open>
  The pattern after its first group: \<^verbatim>\<open>\[\<close>, group 2, a space, group 3, \<^verbatim>\<open>\]\<close>. Each
  result is group 2, group 3 and the input after the match.
\<close>

definition after_first_group :: "string \<Rightarrow> (string \<times> string \<times> string) list" where
  "after_first_group s =
     (case s of
        [] \<Rightarrow> []
      | c # s1 \<Rightarrow>
          if c \<noteq> CHR ''['' then []
          else concat (map (\<lambda>s2.
                 case s2 of
                   [] \<Rightarrow> []
                 | sp # s3 \<Rightarrow>
                     if sp \<noteq> CHR '' '' then []
                     else concat (map (\<lambda>s4.
                            case s4 of
                              [] \<Rightarrow> []
                            | cl # s5 \<Rightarrow>
                                if cl \<noteq> CHR '']'' then []
                                else [(consumed s1 s2, consumed s3 s4, s5)])
                          (bracket_items s3)))
               (bracket_items s1)))"

text \<open>
  The matches at one position, best first: group 1 is a character other than a
  backslash, or (second alternative) empty at the start of the input. Each result is
  groups 1 to 3 and the input after the match.
\<close>

definition spaceInCharacterMatchingRegex_at ::
    "bool \<Rightarrow> string \<Rightarrow> (string \<times> string \<times> string \<times> string) list" where
  "spaceInCharacterMatchingRegex_at at_start s =
     (case s of
        [] \<Rightarrow> []
      | c # r \<Rightarrow> if c \<noteq> backslash then map (\<lambda>m. ([c], m)) (after_first_group r) else [])
     @ (if at_start then map (\<lambda>m. ([], m)) (after_first_group s) else [])"

lemma bracket_items_shorter: "r \<in> set (bracket_items s) \<Longrightarrow> length r \<le> length s"
  by (induction s arbitrary: r rule: bracket_items.induct) (fastforce split: if_splits)+

lemma after_first_group_shorter:
  "(g2, g3, rest) \<in> set (after_first_group s) \<Longrightarrow> length rest < length s"
  by (fastforce simp: after_first_group_def split: list.splits if_splits
        dest: bracket_items_shorter)

lemma spaceInCharacterMatchingRegex_at_shorter:
  "(g1, g2, g3, rest) \<in> set (spaceInCharacterMatchingRegex_at at_start s)
   \<Longrightarrow> length rest < length s"
  by (fastforce simp: spaceInCharacterMatchingRegex_at_def split: list.splits if_splits
        dest: after_first_group_shorter)

text \<open>
  \<^verbatim>\<open>s.replaceAll(spaceInCharacterMatchingRegex, "$1(?:[$2$3]|%20)")\<close>: the input is scanned
  from the left; at the first position with a match the best match is replaced and the
  scan goes on behind it, otherwise the character is copied.
\<close>

function replaceAll_spaceInCharacterMatchingRegex :: "bool \<Rightarrow> string \<Rightarrow> string" where
  "replaceAll_spaceInCharacterMatchingRegex at_start s =
     (case spaceInCharacterMatchingRegex_at at_start s of
        (g1, g2, g3, rest) # _ \<Rightarrow>
          g1 @ ''(?:['' @ g2 @ g3 @ '']|%20)'' @ replaceAll_spaceInCharacterMatchingRegex False rest
      | [] \<Rightarrow>
          (case s of
             [] \<Rightarrow> []
           | c # r \<Rightarrow> c # replaceAll_spaceInCharacterMatchingRegex False r))"
  by pat_completeness auto
termination
proof (relation "measure (\<lambda>(at_start, s). length s)")
  fix at_start s x xs g1 y g2 z g3 rest
  assume "spaceInCharacterMatchingRegex_at at_start s = x # xs"
    and "(g1, y) = x" and "(g2, z) = y" and "(g3, rest) = z"
  then have "(g1, g2, g3, rest) \<in> set (spaceInCharacterMatchingRegex_at at_start s)"
    by auto
  then show "((False, rest), (at_start, s)) \<in> measure (\<lambda>(at_start, s). length s)"
    by (simp add: spaceInCharacterMatchingRegex_at_shorter)
qed auto

declare replaceAll_spaceInCharacterMatchingRegex.simps [simp del]

subsection \<open>Regular expression values and their translation (lines 157 to 166)\<close>

record RegExp =
  source :: string
  flags :: string

text \<open>\<^verbatim>\<open>RegExp.prototype.toString\<close>: the source between slashes, then the flags.\<close>

definition RegExp_toString :: "RegExp \<Rightarrow> string" where
  "RegExp_toString r = ''/'' @ source r @ ''/'' @ flags r"

definition translate_regex :: "RegExp \<Rightarrow> string" where
  "translate_regex r =
     String_replaceAll '' '' ''%20''
       (replaceAll_spaceInCharacterMatchingRegex True
          (String_replaceAll [backslash, CHR ''/''] ''/''
             (String_slice (RegExp_toString r) 1 (- 1))))"

subsection \<open>The configuration (lines 7 to 37) and the generator's inputs\<close>

text \<open>\<^verbatim>\<open>RedirectCode\<close>, a union of four keywords and four numbers.\<close>

datatype RedirectCode =
  Permanent | Code301 | Temp | Code302 | Seeother | Code303 | Gone | Code410

text \<open>A redirect code inside a template literal: a keyword as it is, a number in decimal.\<close>

fun RedirectCode_text :: "RedirectCode \<Rightarrow> string" where
  "RedirectCode_text Permanent = ''permanent''"
| "RedirectCode_text Code301 = Number_toString 301"
| "RedirectCode_text Temp = ''temp''"
| "RedirectCode_text Code302 = Number_toString 302"
| "RedirectCode_text Seeother = ''seeother''"
| "RedirectCode_text Code303 = Number_toString 303"
| "RedirectCode_text Gone = ''gone''"
| "RedirectCode_text Code410 = Number_toString 410"

text \<open>An entry of \<^verbatim>\<open>errorPages\<close>: \<^verbatim>\<open>{ code: ErrorCode; document: string }\<close>.\<close>

record ErrorPage =
  ep_code :: nat
  ep_document :: string

text \<open>\<^verbatim>\<open>match: string | RegExp\<close>.\<close>

datatype MatchValue = StringMatch string | RegExpMatch RegExp

text \<open>An entry of \<^verbatim>\<open>redirects\<close>: \<^verbatim>\<open>{ code?: RedirectCode; match: string | RegExp; url: string }\<close>.\<close>

record RedirectRule =
  rd_code :: "RedirectCode option"
  rd_match :: MatchValue
  rd_url :: string

text \<open>
  \<^verbatim>\<open>generateHtaccessFile?: boolean | (() => boolean) | (() => Promise<boolean>)\<close>. A function
  is modelled by the boolean it returns or resolves to.
\<close>

datatype GenerateHtaccessFile = Omitted | Boolean bool | Function bool

record Config =
  generateHtaccessFile :: GenerateHtaccessFile
  errorPages :: "ErrorPage list option"
  redirects :: "RedirectRule list option"
  customRules :: "string list option"

text \<open>
  A route of the generator: \<^verbatim>\<open>{ type, route, redirect }\<close>, the redirect being a string or
  an object with a \<^verbatim>\<open>destination\<close>.
\<close>

datatype RedirectConfig = RedirectString string | RedirectObject string

record RouteData =
  route_type :: string
  route :: string
  redirect :: "RedirectConfig option"

text \<open>
  What the setup hook reads of the generator's configuration. The directories are the
  results of the platform's URL functions (\<^verbatim>\<open>fileURLToPath\<close>, \<^verbatim>\<open>new URL\<close>) on
  \<^verbatim>\<open>config.root\<close>, \<^verbatim>\<open>config.base\<close> and \<^verbatim>\<open>config.outDir\<close>, and on \<^verbatim>\<open>config.build.client\<close>.
\<close>

record AstroConfig =
  config_output :: string
  adapter_name :: "string option"
  vercel_static_dir :: string
  cloudflare_dir :: string
  build_client_dir :: string
  outDir_path :: string

subsection \<open>The logger and the file system\<close>

datatype LogLevel = LogDebug | LogInfo | LogWarn | LogError

type_synonym LogEntry = "LogLevel \<times> string"

record World =
  files :: "string \<rightharpoonup> string"
  console :: "LogEntry list"

text \<open>
  \<^verbatim>\<open>writeFile(path, [existsSync(path) ? "\n" : "", text], { flag: 'a' })\<close>: the text is
  appended, behind a line feed when the file exists.
\<close>

definition appendFile :: "string \<Rightarrow> string \<Rightarrow> (string \<rightharpoonup> string) \<Rightarrow> (string \<rightharpoonup> string)" where
  "appendFile path text fs =
     (case fs path of
        None \<Rightarrow> fs(path \<mapsto> text)
      | Some old \<Rightarrow> fs(path \<mapsto> old @ [line_feed] @ text))"

subsection \<open>The state of one generation (lines 92 and 93)\<close>

record Generation =
  handledErrorCodes :: "nat set"
  error :: bool
  logged :: "LogEntry list"

text \<open>
  \<^verbatim>\<open>code in handledErrorCodes\<close> (lines 105 and 134). The operator \<^verbatim>\<open>in\<close> asks whether the
  object has a property of that key, its own or inherited; the key of a number is its
  decimal text. A \<^verbatim>\<open>Set\<close> keeps its elements in an internal slot, not in properties, so
  the properties of \<^verbatim>\<open>handledErrorCodes\<close> are those of \<^verbatim>\<open>Set.prototype\<close> and
  \<^verbatim>\<open>Object.prototype\<close>, whatever was added to the set.
\<close>

definition Set_property_keys :: "string list" where
  "Set_property_keys =
     [''constructor'', ''has'', ''add'', ''delete'', ''clear'', ''entries'', ''forEach'',
      ''size'', ''values'', ''keys'', ''union'', ''intersection'', ''difference'',
      ''symmetricDifference'', ''isSubsetOf'', ''isSupersetOf'', ''isDisjointFrom'',
      ''__defineGetter__'', ''__defineSetter__'', ''hasOwnProperty'', ''__lookupGetter__'',
      ''__lookupSetter__'', ''isPrototypeOf'', ''propertyIsEnumerable'', ''toString'',
      ''valueOf'', ''__proto__'', ''toLocaleString'']"

definition in_handledErrorCodes :: "nat \<Rightarrow> nat set \<Rightarrow> bool" where
  "in_handledErrorCodes code handled = (Number_toString code \<in> set Set_property_keys)"

definition log_to :: "LogLevel \<Rightarrow> string \<Rightarrow> Generation \<Rightarrow> Generation" where
  "log_to level message g = g\<lparr>logged := logged g @ [(level, message)]\<rparr>"

text \<open>\<^verbatim>\<open>array.map(callback)\<close> for a callback that changes the state of the generation.\<close>

fun map_callback ::
    "(Generation \<Rightarrow> 'a \<Rightarrow> string \<times> Generation) \<Rightarrow> Generation \<Rightarrow> 'a list
     \<Rightarrow> string list \<times> Generation" where
  "map_callback f g [] = ([], g)"
| "map_callback f g (x # xs) =
     (case f g x of
        (y, g') \<Rightarrow> (case map_callback f g' xs of (ys, g'') \<Rightarrow> (y # ys, g'')))"

subsection \<open>The four sources (lines 94 to 176)\<close>

text \<open>Line 96: \<^verbatim>\<open>customRules ?? []\<close>.\<close>

definition customRules_source :: "Config \<Rightarrow> string list" where
  "customRules_source cfg = (case customRules cfg of None \<Rightarrow> [] | Some rules \<Rightarrow> rules)"

text \<open>Lines 100 to 112: the callback of \<^verbatim>\<open>errorPages.map\<close>.\<close>

definition errorPages_callback :: "Generation \<Rightarrow> ErrorPage \<Rightarrow> string \<times> Generation" where
  "errorPages_callback g ep =
     (if error g then ([], g)
      else if in_handledErrorCodes (ep_code ep) (handledErrorCodes g) then
        ([], (log_to LogError
               (''Duplicated error code '' @ Number_toString (ep_code ep) @ '' detected!'') g)
             \<lparr>error := True\<rparr>)
      else
        (''ErrorDocument '' @ Number_toString (ep_code ep) @ '' '' @ document_path (ep_document ep),
         g\<lparr>handledErrorCodes := insert (ep_code ep) (handledErrorCodes g)\<rparr>))"

text \<open>Lines 98 to 113: an array, also an empty one, is truthy.\<close>

definition errorPages_source :: "Config \<Rightarrow> Generation \<Rightarrow> string list \<times> Generation" where
  "errorPages_source cfg g =
     (case errorPages cfg of
        None \<Rightarrow> ([], g)
      | Some pages \<Rightarrow> if error g then ([], g) else map_callback errorPages_callback g pages)"

text \<open>Line 121: \<^verbatim>\<open>typeof redirect === "string" ? redirect : redirect?.destination\<close>.\<close>

fun destination_of :: "RedirectConfig option \<Rightarrow> string option" where
  "destination_of None = None"
| "destination_of (Some (RedirectString d)) = Some d"
| "destination_of (Some (RedirectObject d)) = Some d"

text \<open>
  Lines 117 to 147: the callback of \<^verbatim>\<open>routes.reduce\<close>; the accumulator is the array of
  lines. A destination is used when it is truthy: present and not the empty string.
\<close>

definition routes_callback ::
    "Config \<Rightarrow> string list \<times> Generation \<Rightarrow> RouteData \<Rightarrow> string list \<times> Generation" where
  "routes_callback cfg accg r =
     (case accg of (acc, g) \<Rightarrow>
        if error g then (acc, g)
        else if route_type r = ''redirect'' then
          (case destination_of (redirect r) of
             None \<Rightarrow>
               (acc, log_to LogWarn
                  (''No destination found for redirect route '' @ [CHR 0x22] @ route r @ [CHR 0x22] @ ''! Skipping.'') g)
           | Some destination \<Rightarrow>
               if destination \<noteq> [] then
                 (acc @ [''RedirectMatch 301 ^'' @ route r @ ''(/(index.html)?)?$ '' @ destination], g)
               else
                 (acc, log_to LogWarn
                    (''No destination found for redirect route '' @ [CHR 0x22] @ route r @ [CHR 0x22] @ ''! Skipping.'') g))
        else if route_type r = ''page'' then
          (if errorPages cfg = None then
             (case errorPageRegex_match (route r) of
                None \<Rightarrow> (acc, g)
              | Some m \<Rightarrow>
                  if m = [] then (acc, g)
                  else
                    (let code = parseInt m in
                     if in_handledErrorCodes code (handledErrorCodes g) then
                       (acc, (log_to LogError
                                (''Duplicated error code '' @ Number_toString code @ '' detected!'') g)
                             \<lparr>error := True\<rparr>)
                     else
                       (acc @ [''ErrorDocument '' @ Number_toString code @ '' ''
                               @ (if endsWith (route r) ''.html'' then route r
                                  else route r @ ''.html'')],
                        g\<lparr>handledErrorCodes := insert code (handledErrorCodes g)\<rparr>)))
           else (acc, g))
        else (acc, g))"

text \<open>Lines 115 to 148: \<^verbatim>\<open>(!error && routes.reduce(callback, [])) || []\<close>.\<close>

definition routes_source ::
    "Config \<Rightarrow> RouteData list \<Rightarrow> Generation \<Rightarrow> string list \<times> Generation" where
  "routes_source cfg routes g =
     (if error g then ([], g) else foldl (routes_callback cfg) ([], g) routes)"

text \<open>
  Lines 152 to 174: the callback of \<^verbatim>\<open>redirects.map\<close>. \<^verbatim>\<open>match.search("\n") > -1\<close> holds
  when the text has a line feed; \<^verbatim>\<open>code ?? 301\<close> is the code, or 301 when there is none.
\<close>

definition redirects_callback :: "Generation \<Rightarrow> RedirectRule \<Rightarrow> string \<times> Generation" where
  "redirects_callback g rd =
     (if error g then ([], g)
      else
        (let code_text = (case rd_code rd of None \<Rightarrow> Number_toString 301
                          | Some code \<Rightarrow> RedirectCode_text code)
         in case rd_match rd of
              StringMatch m \<Rightarrow>
                (''RedirectMatch '' @ code_text @ '' '' @ m @ '' '' @ rd_url rd, g)
            | RegExpMatch re \<Rightarrow>
                (let m = translate_regex re in
                 if line_feed \<in> set m then
                   ([], (log_to LogError (''Invalid line break in regex for '' @ rd_url rd) g)
                        \<lparr>error := True\<rparr>)
                 else (''RedirectMatch '' @ code_text @ '' '' @ m @ '' '' @ rd_url rd, g))))"

text \<open>Lines 150 to 175.\<close>

definition redirects_source :: "Config \<Rightarrow> Generation \<Rightarrow> string list \<times> Generation" where
  "redirects_source cfg g =
     (case redirects cfg of
        None \<Rightarrow> ([], g)
      | Some rules \<Rightarrow> if error g then ([], g) else map_callback redirects_callback g rules)"

text \<open>
  Lines 92 to 178: the four functions are called in the order of the array and their
  arrays are flattened into one. The result keeps the four arrays apart, with the state
  of the generation after the last one.
\<close>

definition fresh_generation :: Generation where
  "fresh_generation = \<lparr>handledErrorCodes = {}, error = False, logged = []\<rparr>"

definition run_sources ::
    "Config \<Rightarrow> RouteData list \<Rightarrow> (string list \<times> string list \<times> string list \<times> string list) \<times> Generation" where
  "run_sources cfg routes =
     (let custom = customRules_source cfg in
      case errorPages_source cfg fresh_generation of (pages, g2) \<Rightarrow>
      case routes_source cfg routes g2 of (discovered, g3) \<Rightarrow>
      case redirects_source cfg g3 of (redirected, g4) \<Rightarrow>
        ((custom, pages, discovered, redirected), g4))"

definition htaccess_lines :: "Config \<Rightarrow> RouteData list \<Rightarrow> string list" where
  "htaccess_lines cfg routes =
     (case fst (run_sources cfg routes) of
        (custom, pages, discovered, redirected) \<Rightarrow> custom @ pages @ discovered @ redirected)"

subsection \<open>The integration and its two hooks (lines 42 to 188)\<close>

record Integration =
  assetsDir :: "string option"
  enabled :: "bool option"
  predicate_calls :: nat

text \<open>
  Lines 43 and 44: the state a call of \<^verbatim>\<open>integration\<close> starts with. \<open>predicate_calls\<close>
  counts the calls of a \<^verbatim>\<open>generateHtaccessFile\<close> function; it is not a variable of the
  code.
\<close>

definition integration :: Integration where
  "integration = \<lparr>assetsDir = None, enabled = Some True, predicate_calls = 0\<rparr>"

text \<open>Lines 49 to 56 and 76 to 83: the switch is resolved when \<^verbatim>\<open>enabled\<close> is \<^verbatim>\<open>null\<close>.\<close>

definition resolve_enabled :: "Config \<Rightarrow> Integration \<Rightarrow> Integration" where
  "resolve_enabled cfg st =
     (if enabled st = None then
        (case generateHtaccessFile cfg of
           Omitted \<Rightarrow> st\<lparr>enabled := Some True\<rparr>
         | Function result \<Rightarrow>
             st\<lparr>enabled := Some (\<not> result), predicate_calls := predicate_calls st + 1\<rparr>
         | Boolean b \<Rightarrow> st\<lparr>enabled := Some (\<not> b)\<rparr>)
      else st)"

text \<open>Lines 48 to 74: the hook \<^verbatim>\<open>astro:config:setup\<close>.\<close>

definition config_setup :: "Config \<Rightarrow> AstroConfig \<Rightarrow> Integration \<times> World \<Rightarrow> Integration \<times> World" where
  "config_setup cfg config stw =
     (case stw of (st0, w) \<Rightarrow>
        (let st = resolve_enabled cfg st0 in
         if enabled st \<noteq> Some True then
           (st, w\<lparr>console := console w @
              [(LogDebug, ''generateHtaccessFile evaluated to false; skipping integration config.'')]\<rparr>)
         else if config_output config = ''server'' then
           (st, w\<lparr>console := console w @ [(LogWarn, ''Cannot generate .htaccess file in SSR mode.'')]\<rparr>)
         else
           (case adapter_name config of
              None \<Rightarrow> (st\<lparr>assetsDir := Some (outDir_path config)\<rparr>, w)
            | Some name \<Rightarrow>
                if startsWith name ''@astrojs/vercel'' then
                  (st\<lparr>assetsDir := Some (vercel_static_dir config)\<rparr>, w)
                else if name = ''@astrojs/cloudflare'' then
                  (st\<lparr>assetsDir := Some (cloudflare_dir config)\<rparr>, w)
                else if name = ''@astrojs/node'' then
                  (st\<lparr>assetsDir := Some (build_client_dir config)\<rparr>, w)
                else (st\<lparr>assetsDir := Some (outDir_path config)\<rparr>, w))))"

text \<open>
  Lines 75 to 184: the hook \<^verbatim>\<open>astro:build:done\<close>. \<^verbatim>\<open>!assetsDir\<close> holds for \<^verbatim>\<open>null\<close> and for
  the empty string; \<^verbatim>\<open>path.join\<close> is the one of a POSIX platform.
\<close>

definition build_done :: "Config \<Rightarrow> RouteData list \<Rightarrow> Integration \<times> World \<Rightarrow> Integration \<times> World" where
  "build_done cfg routes stw =
     (case stw of (st0, w) \<Rightarrow>
        (let st = resolve_enabled cfg st0 in
         if enabled st \<noteq> Some True then
           (st, w\<lparr>console := console w @
              [(LogDebug, ''generateHtaccessFile evaluated to false; skipping .htaccess generation.'')]\<rparr>)
         else
           (case assetsDir st of
              None \<Rightarrow>
                (st, w\<lparr>console := console w @ [(LogWarn, ''Cannot generate .htaccess file in SSR mode.'')]\<rparr>)
            | Some dir \<Rightarrow>
                if dir = [] then
                  (st, w\<lparr>console := console w @ [(LogWarn, ''Cannot generate .htaccess file in SSR mode.'')]\<rparr>)
                else
                  (let g = snd (run_sources cfg routes);
                       htaccess = htaccess_lines cfg routes
                   in if \<not> error g then
                        (let htaccessPath = pathPosix_join [dir, ''.htaccess''] in
                         (st, \<lparr>files = appendFile htaccessPath (Array_join htaccess [line_feed]) (files w),
                               console = console w @ logged g @
                                 [(LogInfo, ''Generated .htaccess with '' @ Number_toString (length htaccess)
                                    @ '' '' @ (if length htaccess = 1 then ''rule'' else ''rules''))]\<rparr>))
                      else (st, w\<lparr>console := console w @ logged g\<rparr>)))))"

text \<open>One build: the integration is created, then the generator calls the two hooks.\<close>

definition run_build :: "Config \<Rightarrow> AstroConfig \<Rightarrow> RouteData list \<Rightarrow> World \<Rightarrow> Integration \<times> World" where
  "run_build cfg config routes w = build_done cfg routes (config_setup cfg config (integration, w))"

subsection \<open>Notions used in the statements\<close>

text \<open>A segment that \<open>normalizeString\<close> keeps as it is.\<close>

definition plain_segment :: "string \<Rightarrow> bool" where
  "plain_segment seg = (seg \<noteq> [] \<and> seg \<noteq> ''.'' \<and> seg \<noteq> ''..'')"

text \<open>
  The lines each source is expected to give, written without the state of the
  generation: they are what the statements below compare the four sources with.

  The line of a user error page: the code and the normalized document.
\<close>

definition errorPage_line :: "ErrorPage \<Rightarrow> string" where
  "errorPage_line ep =
     ''ErrorDocument '' @ Number_toString (ep_code ep) @ '' '' @ document_path (ep_document ep)"

text \<open>
  The line of a user redirect: the code as it is written (301 when there is none), the
  match (a string as it is, a regular expression translated) and the target.
\<close>

definition written_code :: "RedirectCode option \<Rightarrow> string" where
  "written_code code = (case code of None \<Rightarrow> Number_toString 301 | Some c \<Rightarrow> RedirectCode_text c)"

definition resolved_match :: "MatchValue \<Rightarrow> string" where
  "resolved_match m = (case m of StringMatch s \<Rightarrow> s | RegExpMatch re \<Rightarrow> translate_regex re)"

definition redirect_line :: "RedirectRule \<Rightarrow> string" where
  "redirect_line rd =
     ''RedirectMatch '' @ written_code (rd_code rd) @ '' '' @ resolved_match (rd_match rd)
     @ '' '' @ rd_url rd"

text \<open>
  The invalid-pattern conflict: a user redirect whose translated regular expression has
  a line feed; a configuration with such a redirect.
\<close>

definition invalid_line_break :: "RedirectRule \<Rightarrow> bool" where
  "invalid_line_break rd =
     (case rd_match rd of
        StringMatch s \<Rightarrow> False
      | RegExpMatch re \<Rightarrow> line_feed \<in> set (translate_regex re))"

definition line_break_conflict :: "Config \<Rightarrow> bool" where
  "line_break_conflict cfg =
     (case redirects cfg of None \<Rightarrow> False | Some rules \<Rightarrow> list_ex invalid_line_break rules)"

text \<open>
  The line of a redirect route with a destination; the routes that name an error page
  (a slash, one of the digits 3, 4, 5, two more digits); the line of such a page; and
  the lines of a route, its error page counting only when \<^verbatim>\<open>errorPages\<close> is absent.
\<close>

definition route_redirect_lines :: "RouteData \<Rightarrow> string list" where
  "route_redirect_lines r =
     (if route_type r = ''redirect'' then
        (case destination_of (redirect r) of
           None \<Rightarrow> []
         | Some d \<Rightarrow>
             if d = [] then []
             else [''RedirectMatch 301 ^'' @ route r @ ''(/(index.html)?)?$ '' @ d])
      else [])"

definition is_error_route :: "string \<Rightarrow> bool" where
  "is_error_route rt =
     (length rt = 4 \<and> rt ! 0 = CHR ''/'' \<and> rt ! 1 \<in> set ''345''
      \<and> is_digit (rt ! 2) \<and> is_digit (rt ! 3))"

definition route_error_lines :: "RouteData \<Rightarrow> string list" where
  "route_error_lines r =
     (if route_type r = ''page'' \<and> is_error_route (route r) then
        [''ErrorDocument '' @ drop 1 (route r) @ '' ''
         @ (if endsWith (route r) ''.html'' then route r else route r @ ''.html'')]
      else [])"

definition route_lines :: "Config \<Rightarrow> RouteData \<Rightarrow> string list" where
  "route_lines cfg r =
     route_redirect_lines r @ (if errorPages cfg = None then route_error_lines r else [])"

text \<open>
  The custom rules as they are given (none when the option is absent), and the lines of
  all user error pages and of all user redirects.
\<close>

definition customRules_lines :: "Config \<Rightarrow> string list" where
  "customRules_lines cfg = (case customRules cfg of None \<Rightarrow> [] | Some rules \<Rightarrow> rules)"

definition errorPages_lines :: "Config \<Rightarrow> string list" where
  "errorPages_lines cfg =
     (case errorPages cfg of None \<Rightarrow> [] | Some pages \<Rightarrow> map errorPage_line pages)"

definition redirects_lines :: "Config \<Rightarrow> string list" where
  "redirects_lines cfg =
     (case redirects cfg of None \<Rightarrow> [] | Some rules \<Rightarrow> map redirect_line rules)"

text \<open>The third and the fourth array of a generation.\<close>

definition discovered_lines :: "Config \<Rightarrow> RouteData list \<Rightarrow> string list" where
  "discovered_lines cfg routes =
     (case fst (run_sources cfg routes) of (custom, pages, discovered, redirected) \<Rightarrow> discovered)"

definition redirected_lines :: "Config \<Rightarrow> RouteData list \<Rightarrow> string list" where
  "redirected_lines cfg routes =
     (case fst (run_sources cfg routes) of (custom, pages, discovered, redirected) \<Rightarrow> redirected)"

text \<open>
  The duplicate-error conflict: the error codes of the error-page rules of a run are
  those of the user's error pages and those of the page routes that name an error page;
  two rules share a code when these codes are not all different.
\<close>

definition error_page_codes :: "Config \<Rightarrow> RouteData list \<Rightarrow> string list" where
  "error_page_codes cfg routes =
     (case errorPages cfg of
        None \<Rightarrow> []
      | Some pages \<Rightarrow> map (\<lambda>ep. Number_toString (ep_code ep)) pages)
     @ map (\<lambda>r. drop 1 (route r))
         (filter (\<lambda>r. route_type r = ''page'' \<and> is_error_route (route r)) routes)"

definition duplicate_error_code :: "Config \<Rightarrow> RouteData list \<Rightarrow> bool" where
  "duplicate_error_code cfg routes = (\<not> distinct (error_page_codes cfg routes))"



text \<open>A user redirect whose match is a literal string, and the line it is expected to give.\<close>

definition string_rule :: "RedirectCode option \<times> string \<times> string \<Rightarrow> RedirectRule" where
  "string_rule t = (case t of (code, m, url) \<Rightarrow>
                      \<lparr>rd_code = code, rd_match = StringMatch m, rd_url = url\<rparr>)"

definition verbatim_line :: "RedirectCode option \<times> string \<times> string \<Rightarrow> string" where
  "verbatim_line t = (case t of (code, m, url) \<Rightarrow>
                        ''RedirectMatch '' @ written_code code @ '' '' @ m @ '' '' @ url)"

text \<open>
  Inputs of the examples: a configuration without any option, a static build into
  \<^verbatim>\<open>/site/dist/\<close>, a file system without files; the scenario of an error page, a
  redirect of the generator and a user redirect with a regular expression, also with
  two custom rules; a route table with error pages among other routes; a configuration
  with a custom rule and two user error pages of code 500; and a file system in which
  the output file exists.
\<close>

definition no_rules :: Config where
  "no_rules = \<lparr>generateHtaccessFile = Omitted, errorPages = None, redirects = None,
                customRules = None\<rparr>"

definition static_config :: AstroConfig where
  "static_config =
     \<lparr>config_output = ''static'', adapter_name = None,
      vercel_static_dir = ''/site/.vercel/output/static/'', cloudflare_dir = ''/site/dist/'',
      build_client_dir = ''/site/dist/client/'', outDir_path = ''/site/dist/''\<rparr>"

definition empty_world :: World where
  "empty_world = \<lparr>files = Map.empty, console = []\<rparr>"

definition scenario :: Config where
  "scenario =
     \<lparr>generateHtaccessFile = Omitted,
      errorPages = Some [\<lparr>ep_code = 404, ep_document = ''/errors/404''\<rparr>],
      redirects = Some [\<lparr>rd_code = Some Code302,
                          rd_match = RegExpMatch \<lparr>source = ''^'' @ [backslash] @ ''/github'' @ [backslash] @ ''b'',
                                                   flags = ''''\<rparr>,
                          rd_url = ''https://github.com/x''\<rparr>],
      customRules = None\<rparr>"

definition scenario_routes :: "RouteData list" where
  "scenario_routes =
     [\<lparr>route_type = ''redirect'', route = ''/faq'',
       redirect = Some (RedirectString ''/about_this_project'')\<rparr>]"

definition scenario_with_rules :: Config where
  "scenario_with_rules = scenario\<lparr>customRules := Some [''Options -Indexes'', ''RewriteEngine On'']\<rparr>"

definition two_pages_500 :: Config where
  "two_pages_500 =
     \<lparr>generateHtaccessFile = Omitted,
      errorPages = Some [\<lparr>ep_code = 500, ep_document = ''/e''\<rparr>,
                         \<lparr>ep_code = 500, ep_document = ''/f''\<rparr>],
      redirects = None,
      customRules = Some [''Options -Indexes'']\<rparr>"

definition old_world :: World where
  "old_world = \<lparr>files = [''/site/dist/.htaccess'' \<mapsto> ''# old''], console = []\<rparr>"

definition discovery_routes :: "RouteData list" where
  "discovery_routes =
     [\<lparr>route_type = ''page'', route = ''/404'', redirect = None\<rparr>,
      \<lparr>route_type = ''page'', route = ''/about'', redirect = None\<rparr>,
      \<lparr>route_type = ''redirect'', route = ''/faq'', redirect = Some (RedirectObject ''/about'')\<rparr>,
      \<lparr>route_type = ''endpoint'', route = ''/500'', redirect = None\<rparr>,
      \<lparr>route_type = ''page'', route = ''/500'', redirect = None\<rparr>,
      \<lparr>route_type = ''page'', route = ''/200'', redirect = None\<rparr>]"

section \<open>Properties\<close>

subsection \<open>Strings, segments and paths\<close>

lemma endsWith_iff: "endsWith s suf \<longleftrightarrow> (\<exists>p. s = p @ suf)"
proof
  assume "endsWith s suf"
  then have "s = take (length s - length suf) s @ suf"
    unfolding endsWith_def by (metis append_take_drop_id)
  then show "\<exists>p. s = p @ suf" ..
next
  assume "\<exists>p. s = p @ suf"
  then show "endsWith s suf" by (auto simp: endsWith_def)
qed

lemma split_at_nonempty: "split_at sep s \<noteq> []"
  by (induction s) (auto split: list.splits)

lemma split_at_no_sep: "x \<in> set (split_at sep s) \<Longrightarrow> sep \<notin> set x"
  by (induction s arbitrary: x) (auto split: list.splits if_splits)

lemma split_at_append_plain:
  "sep \<notin> set t \<Longrightarrow>
   split_at sep (s @ t) = butlast (split_at sep s) @ [last (split_at sep s) @ t]"
proof (induction s)
  case Nil
  then show ?case by (induction t) (auto split: list.splits)
next
  case (Cons c s)
  then show ?case
    by (cases "split_at sep s") (auto simp: split_at_nonempty split: list.splits)
qed

lemma split_at_join:
  "segs \<noteq> [] \<Longrightarrow> \<forall>x\<in>set segs. sep \<notin> set x \<Longrightarrow>
   split_at sep (Array_join segs [sep]) = segs"
proof (induction segs "[sep]" rule: Array_join.induct)
  case 1
  then show ?case by simp
next
  case (2 x)
  then show ?case using split_at_append_plain[of sep x "[]"] by simp
next
  case (3 x y ys)
  have "split_at sep (x @ sep # r) = x # split_at sep r" if "sep \<notin> set x" for r
    using that by (induction x) (auto split: list.splits)
  with 3 show ?case by simp
qed

lemma normalizeString_snoc:
  "plain_segment x \<Longrightarrow>
   normalizeString a res (segs @ [x]) = normalizeString a res segs @ [x]"
  by (induction segs arbitrary: res) (auto simp: plain_segment_def)

lemma normalizeString_plain_id:
  "\<forall>x\<in>set segs. plain_segment x \<Longrightarrow> normalizeString a res segs = res @ segs"
  by (induction segs arbitrary: res) (auto simp: plain_segment_def)

lemma normalizeString_abs_subset:
  "set (normalizeString False res segs) \<subseteq> set res \<union> {x \<in> set segs. plain_segment x}"
proof (induction segs arbitrary: res)
  case Nil
  then show ?case by simp
next
  case (Cons seg segs)
  have "set (butlast res) \<subseteq> set res" by (meson in_set_butlastD subsetI)
  with Cons[of res] Cons[of "butlast res"] Cons[of "res @ [seg]"] show ?case
    by (auto simp: plain_segment_def)
qed

lemma Array_join_snoc:
  "Array_join (T @ [x]) sep = (if T = [] then x else Array_join T sep @ sep @ x)"
  by (induction T sep rule: Array_join.induct) auto

lemma Array_join_snoc_nonempty: "x \<noteq> [] \<Longrightarrow> Array_join (T @ [x]) sep \<noteq> []"
  by (simp add: Array_join_snoc)

lemma Array_join_snoc_last: "x \<noteq> [] \<Longrightarrow> last (Array_join (T @ [x]) sep) = last x"
  by (simp add: Array_join_snoc)

lemma Array_join_snoc_endsWith:
  "endsWith x suf \<Longrightarrow> endsWith (Array_join (T @ [x]) sep) suf"
  by (auto simp: endsWith_iff Array_join_snoc)

lemma html_segment_plain: "plain_segment (y @ ''.html'')"
  by (cases y) (auto simp: plain_segment_def)

text \<open>
  Joining the root with a path that ends in \<^verbatim>\<open>.html\<close> gives a slash followed by plain
  segments, the last of which still ends in \<^verbatim>\<open>.html\<close>.
\<close>

lemma pathPosix_join_root_html:
  assumes "arg = e @ ''.html''"
  shows "\<exists>T x. pathPosix_join [''/'', arg] = CHR ''/'' # Array_join (T @ [x]) ''/''
          \<and> (\<forall>y\<in>set (T @ [x]). plain_segment y \<and> CHR ''/'' \<notin> set y)
          \<and> endsWith x ''.html''"
proof -
  define S where "S = split_at CHR ''/'' e"
  define x where "x = last S @ ''.html''"
  define T where "T = normalizeString False [] (butlast S)"
  have S_ne: "S \<noteq> []" by (simp add: S_def split_at_nonempty)
  have x_plain: "plain_segment x" by (simp add: x_def html_segment_plain)
  have x_ne: "x \<noteq> []" by (simp add: x_def)
  have split_arg: "split_at CHR ''/'' arg = butlast S @ [x]"
    unfolding assms S_def x_def by (rule split_at_append_plain) simp
  have segs: "normalizeString False [] (split_at CHR ''/'' (''//'' @ arg)) = T @ [x]"
    by (simp add: split_arg normalizeString_snoc[OF x_plain] T_def)
  have arg_ne: "arg \<noteq> []" by (simp add: assms)
  have last_arg: "last (''//'' @ arg) \<noteq> CHR ''/''" by (simp add: assms)
  have joined: "Array_join (filter (\<lambda>a. a \<noteq> []) [''/'', arg]) ''/'' = ''//'' @ arg"
    using arg_ne by simp
  have res: "pathPosix_join [''/'', arg] = CHR ''/'' # Array_join (T @ [x]) ''/''"
    unfolding pathPosix_join_def joined Let_def posix_normalize_def
    using last_arg segs Array_join_snoc_nonempty[OF x_ne, of T "''/''"]
    by simp
  have "set T \<subseteq> {y \<in> set (butlast S). plain_segment y}"
    using normalizeString_abs_subset[of "[]" "butlast S"] by (simp add: T_def)
  moreover have "CHR ''/'' \<notin> set y" if "y \<in> set S" for y
    using that split_at_no_sep[of y "CHR ''/''" e] by (simp add: S_def)
  ultimately have T_ok: "\<forall>y\<in>set T. plain_segment y \<and> CHR ''/'' \<notin> set y"
    by (auto dest: in_set_butlastD)
  have "CHR ''/'' \<notin> set (last S)"
    using S_ne split_at_no_sep[of "last S" "CHR ''/''" e] by (simp add: S_def)
  then have x_ok: "CHR ''/'' \<notin> set x" by (simp add: x_def)
  have "endsWith x ''.html''" by (auto simp: endsWith_iff x_def)
  with res T_ok x_ok x_plain show ?thesis by auto
qed

lemma document_path_shape:
  "\<exists>T x. document_path d = CHR ''/'' # Array_join (T @ [x]) ''/''
          \<and> (\<forall>y\<in>set (T @ [x]). plain_segment y \<and> CHR ''/'' \<notin> set y)
          \<and> endsWith x ''.html''"
proof (cases "endsWith d ''.html''")
  case True
  then obtain e where "d = e @ ''.html''" by (auto simp: endsWith_iff)
  from pathPosix_join_root_html[OF this] True show ?thesis
    by (simp add: document_path_def)
next
  case False
  from pathPosix_join_root_html[of "d @ ''.html''" d] False show ?thesis
    by (simp add: document_path_def)
qed

text \<open>Such a path is left as it is by the normalization.\<close>

lemma document_path_fixed:
  assumes ok: "\<forall>y\<in>set (T @ [x]). plain_segment y \<and> CHR ''/'' \<notin> set y"
    and html: "endsWith x ''.html''"
  shows "document_path (CHR ''/'' # Array_join (T @ [x]) ''/'') = CHR ''/'' # Array_join (T @ [x]) ''/''"
proof -
  let ?J = "Array_join (T @ [x]) ''/''"
  have x_ne: "x \<noteq> []" using ok by (auto simp: plain_segment_def)
  have J_html: "endsWith (CHR ''/'' # ?J) ''.html''"
    using Array_join_snoc_endsWith[OF html, of T "''/''"]
    by (auto simp: endsWith_iff intro: exI[of _ "CHR ''/'' # p" for p])
  have J_ne: "?J \<noteq> []" by (rule Array_join_snoc_nonempty[OF x_ne])
  have last_x: "last x \<noteq> CHR ''/''" using ok x_ne by (auto dest: last_in_set)
  have last_J: "last ?J \<noteq> CHR ''/''" using last_x by (simp add: Array_join_snoc_last[OF x_ne])
  have split_J: "split_at CHR ''/'' ?J = T @ [x]"
    using split_at_join[of "T @ [x]" "CHR ''/''"] ok by simp
  have norm: "normalizeString False [] (T @ [x]) = T @ [x]"
    using normalizeString_plain_id[of "T @ [x]" False "[]"] ok by simp
  have "pathPosix_join [''/'', CHR ''/'' # ?J] = CHR ''/'' # ?J"
    unfolding pathPosix_join_def Let_def posix_normalize_def
    using J_ne last_J split_J norm by simp
  with J_html show ?thesis by (simp add: document_path_def)
qed

subsection \<open>Numbers and the membership test\<close>

lemma digit_char_is_digit: "is_digit (digit_char d)"
  unfolding is_digit_def digit_char_def
  by (rule nth_mem) (simp add: decimal_digits_def)

lemma Number_toString_digits: "c \<in> set (Number_toString n) \<Longrightarrow> is_digit c"
proof (induction n arbitrary: c rule: Number_toString.induct)
  case (1 n)
  show ?case
  proof (cases "n < 10")
    case True
    with "1.prems" show ?thesis
      by (subst (asm) Number_toString.simps) (simp add: digit_char_is_digit)
  next
    case False
    from "1.prems" have "c \<in> set (Number_toString (n div 10)) \<or> c = digit_char (n mod 10)"
      by (subst (asm) Number_toString.simps) (use False in auto)
    with "1.IH"[OF False] show ?thesis by (auto simp: digit_char_is_digit)
  qed
qed

lemma Number_toString_nonempty: "Number_toString n \<noteq> []"
  by (subst Number_toString.simps) simp

lemma property_keys_start: "\<forall>k\<in>set Set_property_keys. k \<noteq> [] \<and> \<not> is_digit (hd k)"
  by (simp add: Set_property_keys_def is_digit_def decimal_digits_def)

lemma in_handledErrorCodes_never: "\<not> in_handledErrorCodes code handled"
proof
  assume "in_handledErrorCodes code handled"
  then have key: "Number_toString code \<in> set Set_property_keys"
    by (simp add: in_handledErrorCodes_def)
  with property_keys_start have "\<not> is_digit (hd (Number_toString code))" by blast
  moreover have "hd (Number_toString code) \<in> set (Number_toString code)"
    by (simp add: Number_toString_nonempty)
  ultimately show False using Number_toString_digits by blast
qed

lemma is_digit_cases:
  "is_digit c \<longleftrightarrow> c = CHR ''0'' \<or> c = CHR ''1'' \<or> c = CHR ''2'' \<or> c = CHR ''3'' \<or> c = CHR ''4''
     \<or> c = CHR ''5'' \<or> c = CHR ''6'' \<or> c = CHR ''7'' \<or> c = CHR ''8'' \<or> c = CHR ''9''"
  by (simp add: is_digit_def decimal_digits_def)

lemma digit_value_digit_char: "is_digit c \<Longrightarrow> digit_char (digit_value c) = c"
  unfolding is_digit_cases
  by (elim disjE) (simp_all add: digit_char_def digit_value_def decimal_digits_def)

lemma digit_value_less: "is_digit c \<Longrightarrow> digit_value c < 10"
  unfolding is_digit_cases
  by (elim disjE) (simp_all add: digit_value_def decimal_digits_def)

lemma digit_value_345: "a \<in> set ''345'' \<Longrightarrow> 3 \<le> digit_value a \<and> is_digit a"
  by (auto simp: is_digit_cases digit_value_def decimal_digits_def)

lemma Number_toString_three_digits:
  assumes "0 < x" "x < 10" "y < 10" "z < 10"
  shows "Number_toString (100 * x + 10 * y + z) = [digit_char x, digit_char y, digit_char z]"
proof -
  let ?n = "100 * x + 10 * y + z"
  have e: "?n = 10 * (10 * x + y) + z" by simp
  have d1: "?n div 10 = 10 * x + y" unfolding e using assms by simp
  have "?n mod 10 = z mod 10" unfolding e by (rule mod_mult_self4)
  then have m1: "?n mod 10 = z" using assms by simp
  have d2: "(10 * x + y) div 10 = x" using assms by simp
  have m2: "(10 * x + y) mod 10 = y" using assms by simp
  have big: "\<not> ?n < 10" "\<not> 10 * x + y < 10" using assms by simp_all
  have "Number_toString ?n = Number_toString (?n div 10) @ [digit_char (?n mod 10)]"
    using big(1) by (subst Number_toString.simps) simp
  also have "\<dots> = Number_toString (10 * x + y) @ [digit_char z]"
    by (simp only: d1 m1)
  also have "Number_toString (10 * x + y)
             = Number_toString ((10 * x + y) div 10) @ [digit_char ((10 * x + y) mod 10)]"
    using big(2) by (subst Number_toString.simps) simp
  also have "\<dots> = Number_toString x @ [digit_char y]"
    by (simp only: d2 m2)
  also have "Number_toString x = [digit_char x]"
    using assms by (subst Number_toString.simps) simp
  finally show ?thesis by simp
qed

lemma parseInt_three_digits:
  assumes "is_digit a" "is_digit b" "is_digit c"
  shows "parseInt [a, b, c] = 100 * digit_value a + 10 * digit_value b + digit_value c"
  using assms by (simp add: parseInt_def)

lemma error_code_text:
  assumes "a \<in> set ''345''" "is_digit b" "is_digit c"
  shows "Number_toString (parseInt [a, b, c]) = [a, b, c]"
proof -
  have a: "3 \<le> digit_value a" "is_digit a" using digit_value_345[OF assms(1)] by simp_all
  have "Number_toString (100 * digit_value a + 10 * digit_value b + digit_value c)
        = [digit_char (digit_value a), digit_char (digit_value b), digit_char (digit_value c)]"
    using a digit_value_less[OF a(2)] digit_value_less[OF assms(2)] digit_value_less[OF assms(3)]
    by (intro Number_toString_three_digits) simp_all
  then show ?thesis
    by (simp add: parseInt_three_digits digit_value_digit_char a assms)
qed

lemma Number_toString_301: "Number_toString 301 = ''301''"
  using Number_toString_three_digits[of 3 0 1] by (simp add: digit_char_def decimal_digits_def)

lemma length_four: "length xs = 4 \<Longrightarrow> \<exists>s a b c. xs = [s, a, b, c]"
  by (simp add: numeral_eq_Suc length_Suc_conv) blast

lemma errorPageRegex_match_other: "length rt \<noteq> 4 \<Longrightarrow> errorPageRegex_match rt = None"
  by (auto simp: errorPageRegex_match_def split: list.splits)

lemma errorPageRegex_match_iff:
  "errorPageRegex_match rt = (if is_error_route rt then Some (drop 1 rt) else None)"
proof (cases "length rt = 4")
  case True
  then obtain s a b c where "rt = [s, a, b, c]" using length_four by blast
  then show ?thesis by (simp add: errorPageRegex_match_def is_error_route_def)
next
  case False
  then show ?thesis by (simp add: errorPageRegex_match_other is_error_route_def)
qed

subsection \<open>The sources\<close>

lemma errorPages_callback_eq:
  "errorPages_callback g ep =
     (if error g then ([], g)
      else (errorPage_line ep, g\<lparr>handledErrorCodes := insert (ep_code ep) (handledErrorCodes g)\<rparr>))"
  by (simp add: errorPages_callback_def in_handledErrorCodes_never errorPage_line_def)

lemma map_errorPages_callback:
  "\<not> error g \<Longrightarrow>
   fst (map_callback errorPages_callback g pages) = map errorPage_line pages
   \<and> \<not> error (snd (map_callback errorPages_callback g pages))"
proof (induction pages arbitrary: g)
  case Nil
  then show ?case by simp
next
  case (Cons ep pages)
  let ?g = "g\<lparr>handledErrorCodes := insert (ep_code ep) (handledErrorCodes g)\<rparr>"
  have cb: "errorPages_callback g ep = (errorPage_line ep, ?g)"
    using Cons.prems by (simp add: errorPages_callback_eq)
  obtain ys g' where rest: "map_callback errorPages_callback ?g pages = (ys, g')"
    by (cases "map_callback errorPages_callback ?g pages")
  have "\<not> error ?g" using Cons.prems by simp
  from Cons.IH[OF this] rest have "ys = map errorPage_line pages" "\<not> error g'" by simp_all
  then show ?case by (simp add: cb rest)
qed

lemma errorPages_source_fresh:
  "fst (errorPages_source cfg fresh_generation) = errorPages_lines cfg
   \<and> \<not> error (snd (errorPages_source cfg fresh_generation))"
proof (cases "errorPages cfg")
  case None
  then show ?thesis
    by (simp add: errorPages_source_def errorPages_lines_def fresh_generation_def)
next
  case (Some pages)
  have "\<not> error fresh_generation" by (simp add: fresh_generation_def)
  from map_errorPages_callback[OF this, of pages] Some show ?thesis
    by (simp add: errorPages_source_def errorPages_lines_def fresh_generation_def)
qed

lemma routes_callback_lines:
  assumes "\<not> error g"
  shows "fst (routes_callback cfg (acc, g) r) = acc @ route_lines cfg r
         \<and> \<not> error (snd (routes_callback cfg (acc, g) r))"
proof (cases "route_type r = ''redirect''")
  case True
  with assms show ?thesis
    by (simp add: routes_callback_def route_lines_def route_redirect_lines_def
          route_error_lines_def log_to_def split: option.splits)
next
  case False
  note not_redirect = this
  show ?thesis
  proof (cases "route_type r = ''page'' \<and> errorPages cfg = None \<and> is_error_route (route r)")
    case True
    then obtain s a b c where rt: "route r = [s, a, b, c]"
      using length_four[of "route r"] by (auto simp: is_error_route_def)
    with True have abc: "s = CHR ''/''" "a \<in> set ''345''" "is_digit b" "is_digit c"
      by (simp_all add: is_error_route_def)
    have m: "errorPageRegex_match (route r) = Some [a, b, c]"
      using True rt by (simp add: errorPageRegex_match_iff)
    have shown: "Number_toString (parseInt [a, b, c]) = [a, b, c]"
      by (rule error_code_text[OF abc(2) abc(3) abc(4)])
    from assms True not_redirect m shown rt show ?thesis
      by (simp add: routes_callback_def route_lines_def route_redirect_lines_def
            route_error_lines_def in_handledErrorCodes_never Let_def)
  next
    case False
    with assms not_redirect show ?thesis
      by (auto simp: routes_callback_def route_lines_def route_redirect_lines_def
            route_error_lines_def errorPageRegex_match_iff)
  qed
qed

lemma foldl_routes_callback:
  "\<not> error g \<Longrightarrow>
   fst (foldl (routes_callback cfg) (acc, g) routes) = acc @ concat (map (route_lines cfg) routes)
   \<and> \<not> error (snd (foldl (routes_callback cfg) (acc, g) routes))"
proof (induction routes arbitrary: acc g)
  case Nil
  then show ?case by simp
next
  case (Cons r routes)
  obtain acc' g' where step: "routes_callback cfg (acc, g) r = (acc', g')"
    by (cases "routes_callback cfg (acc, g) r")
  with routes_callback_lines[OF Cons.prems, of cfg acc r]
  have "acc' = acc @ route_lines cfg r" "\<not> error g'" by simp_all
  with Cons.IH[of g' acc'] step show ?case by simp
qed

lemma routes_source_lines:
  "\<not> error g \<Longrightarrow>
   fst (routes_source cfg routes g) = concat (map (route_lines cfg) routes)
   \<and> \<not> error (snd (routes_source cfg routes g))"
  using foldl_routes_callback[of g cfg "[]" routes] by (simp add: routes_source_def)

lemma redirects_callback_error: "error g \<Longrightarrow> redirects_callback g rd = ([], g)"
  by (simp add: redirects_callback_def)

lemma redirects_callback_line:
  "\<not> error g \<Longrightarrow> \<not> invalid_line_break rd \<Longrightarrow> redirects_callback g rd = (redirect_line rd, g)"
  by (auto simp: redirects_callback_def invalid_line_break_def redirect_line_def written_code_def
        resolved_match_def Let_def split: MatchValue.splits)

lemma redirects_callback_conflict:
  "\<not> error g \<Longrightarrow> invalid_line_break rd \<Longrightarrow> error (snd (redirects_callback g rd))"
  by (auto simp: redirects_callback_def invalid_line_break_def Let_def split: MatchValue.splits)

lemma map_redirects_callback_error:
  "error g \<Longrightarrow> error (snd (map_callback redirects_callback g rules))"
proof (induction rules arbitrary: g)
  case Nil
  then show ?case by simp
next
  case (Cons rd rules)
  obtain ys g' where rest: "map_callback redirects_callback g rules = (ys, g')"
    by (cases "map_callback redirects_callback g rules")
  with Cons.IH[OF Cons.prems] have "error g'" by simp
  then show ?case by (simp add: redirects_callback_error[OF Cons.prems] rest)
qed

lemma map_redirects_callback_lines:
  "\<not> error g \<Longrightarrow> \<not> list_ex invalid_line_break rules \<Longrightarrow>
   map_callback redirects_callback g rules = (map redirect_line rules, g)"
proof (induction rules)
  case Nil
  then show ?case by simp
next
  case (Cons rd rules)
  then have "redirects_callback g rd = (redirect_line rd, g)"
    by (simp add: redirects_callback_line)
  with Cons show ?case by simp
qed

lemma map_redirects_callback_conflict:
  "\<not> error g \<Longrightarrow> list_ex invalid_line_break rules \<Longrightarrow>
   error (snd (map_callback redirects_callback g rules))"
proof (induction rules)
  case Nil
  then show ?case by simp
next
  case (Cons rd rules)
  show ?case
  proof (cases "invalid_line_break rd")
    case True
    obtain y g1 where first: "redirects_callback g rd = (y, g1)"
      by (cases "redirects_callback g rd")
    with redirects_callback_conflict[OF Cons.prems(1) True] have "error g1" by simp
    obtain ys g2 where rest: "map_callback redirects_callback g1 rules = (ys, g2)"
      by (cases "map_callback redirects_callback g1 rules")
    with map_redirects_callback_error[OF \<open>error g1\<close>, of rules] have "error g2" by simp
    then show ?thesis by (simp add: first rest)
  next
    case False
    with Cons.prems have first: "redirects_callback g rd = (redirect_line rd, g)"
      by (simp add: redirects_callback_line)
    from False Cons.prems have "list_ex invalid_line_break rules" by simp
    obtain ys g2 where rest: "map_callback redirects_callback g rules = (ys, g2)"
      by (cases "map_callback redirects_callback g rules")
    with Cons.IH[OF Cons.prems(1) \<open>list_ex invalid_line_break rules\<close>] have "error g2" by simp
    then show ?thesis by (simp add: first rest)
  qed
qed

lemma redirects_source_error_iff:
  "\<not> error g \<Longrightarrow> error (snd (redirects_source cfg g)) = line_break_conflict cfg"
proof (cases "redirects cfg")
  case None
  assume "\<not> error g"
  with None show ?thesis by (simp add: redirects_source_def line_break_conflict_def)
next
  case (Some rules)
  assume g: "\<not> error g"
  show ?thesis
  proof (cases "list_ex invalid_line_break rules")
    case True
    with map_redirects_callback_conflict[OF g True] Some g show ?thesis
      by (simp add: redirects_source_def line_break_conflict_def)
  next
    case False
    with map_redirects_callback_lines[OF g False] Some g show ?thesis
      by (simp add: redirects_source_def line_break_conflict_def)
  qed
qed

lemma redirects_source_error_kept: "error g \<Longrightarrow> error (snd (redirects_source cfg g))"
  by (simp add: redirects_source_def split: option.splits)

lemma redirects_source_lines:
  "\<not> error g \<Longrightarrow> \<not> line_break_conflict cfg \<Longrightarrow>
   redirects_source cfg g = (redirects_lines cfg, g)"
  by (auto simp: redirects_source_def line_break_conflict_def redirects_lines_def
        map_redirects_callback_lines split: option.splits)

text \<open>What one generation computes.\<close>

lemma run_sources_shape:
  "\<exists>redirected g.
     run_sources cfg routes =
       ((customRules_source cfg, errorPages_lines cfg, concat (map (route_lines cfg) routes),
         redirected), g)
     \<and> error g = line_break_conflict cfg
     \<and> (\<not> line_break_conflict cfg \<longrightarrow> redirected = redirects_lines cfg)"
proof -
  obtain pages g2 where s2: "errorPages_source cfg fresh_generation = (pages, g2)"
    by (cases "errorPages_source cfg fresh_generation")
  with errorPages_source_fresh[of cfg] have p: "pages = errorPages_lines cfg" "\<not> error g2"
    by simp_all
  obtain discovered g3 where s3: "routes_source cfg routes g2 = (discovered, g3)"
    by (cases "routes_source cfg routes g2")
  with routes_source_lines[OF p(2), of cfg routes]
  have d: "discovered = concat (map (route_lines cfg) routes)" "\<not> error g3"
    by simp_all
  obtain redirected g4 where s4: "redirects_source cfg g3 = (redirected, g4)"
    by (cases "redirects_source cfg g3")
  have e: "error g4 = line_break_conflict cfg"
    using redirects_source_error_iff[OF d(2), of cfg] s4 by simp
  have r: "\<not> line_break_conflict cfg \<longrightarrow> redirected = redirects_lines cfg"
    using redirects_source_lines[OF d(2), of cfg] s4 by simp
  have "run_sources cfg routes = ((customRules_source cfg, pages, discovered, redirected), g4)"
    by (simp add: run_sources_def s2 s3 s4)
  with p d e r show ?thesis by blast
qed

subsection \<open>The two string replacements\<close>












subsection \<open>The regular expression of line 40\<close>



















subsection \<open>A space of the pattern\<close>






















subsection \<open>The generation as a whole\<close>

text \<open>The definitions that evaluate a run on given inputs.\<close>

lemmas model_defs =
  run_build_def build_done_def config_setup_def integration_def resolve_enabled_def
  run_sources_def htaccess_lines_def customRules_source_def errorPages_source_def
  errorPages_callback_def routes_source_def routes_callback_def redirects_source_def
  redirects_callback_def fresh_generation_def log_to_def in_handledErrorCodes_def
  Set_property_keys_def appendFile_def document_path_def pathPosix_join_def
  posix_normalize_def endsWith_def startsWith_def translate_regex_def RegExp_toString_def
  String_slice_def errorPageRegex_match_def parseInt_def is_digit_def digit_char_def
  digit_value_def decimal_digits_def line_feed_def backslash_def Number_toString.simps
  String_replaceAll.simps replaceAll_spaceInCharacterMatchingRegex.simps
  spaceInCharacterMatchingRegex_at_def after_first_group_def consumed_def Let_def
  no_rules_def static_config_def empty_world_def discovered_lines_def redirected_lines_def

lemma routes_source_error_kept: "error g \<Longrightarrow> error (snd (routes_source cfg routes g))"
  by (simp add: routes_source_def)

text \<open>What the hook \<^verbatim>\<open>astro:build:done\<close> does to the files.\<close>

lemma build_done_files:
  "files (snd (build_done cfg routes (st, w))) =
     (if enabled (resolve_enabled cfg st) = Some True
         \<and> assetsDir (resolve_enabled cfg st) \<noteq> None
         \<and> assetsDir (resolve_enabled cfg st) \<noteq> Some []
         \<and> \<not> error (snd (run_sources cfg routes))
      then appendFile (pathPosix_join [the (assetsDir (resolve_enabled cfg st)), ''.htaccess''])
             (Array_join (htaccess_lines cfg routes) [line_feed]) (files w)
      else files w)"
  by (auto simp: build_done_def Let_def split: option.splits)

text \<open>
  The flag \<^verbatim>\<open>error\<close> at the end of the four sources is set by a line feed in a translated
  regular expression and by nothing else; with it set, the hook writes nothing.
\<close>

lemma run_sources_error: "error (snd (run_sources cfg routes)) = line_break_conflict cfg"
  using run_sources_shape[of cfg routes] by auto

lemma no_write_after_line_break:
  assumes "line_break_conflict cfg"
  shows "files (snd (build_done cfg routes (st, w))) = files w"
  using assms by (simp add: build_done_files run_sources_error)

text \<open>A write always changes the files, so unchanged files mean that nothing was written.\<close>

lemma appendFile_changes: "appendFile path text fs \<noteq> fs"
proof
  assume eq: "appendFile path text fs = fs"
  show False
  proof (cases "fs path")
    case None
    then have "appendFile path text fs path = Some text" by (simp add: appendFile_def)
    with eq None show False by simp
  next
    case (Some old)
    then have "appendFile path text fs path = Some (old @ [line_feed] @ text)"
      by (simp add: appendFile_def)
    with eq Some show False by simp
  qed
qed

lemma Number_toString_302: "Number_toString 302 = ''302''"
  using Number_toString_three_digits[of 3 0 2] by (simp add: digit_char_def decimal_digits_def)

lemma Number_toString_303: "Number_toString 303 = ''303''"
  using Number_toString_three_digits[of 3 0 3] by (simp add: digit_char_def decimal_digits_def)

lemma Number_toString_410: "Number_toString 410 = ''410''"
  using Number_toString_three_digits[of 4 1 0] by (simp add: digit_char_def decimal_digits_def)

lemma scenario_lines:
  "htaccess_lines scenario scenario_routes
   = [''ErrorDocument 404 /errors/404.html'',
      ''RedirectMatch 301 ^/faq(/(index.html)?)?$ /about_this_project'',
      ''RedirectMatch 302 ^/github'' @ [backslash] @ ''b https://github.com/x'']"
  by (simp add: scenario_def scenario_routes_def model_defs)

lemma scenario_with_rules_lines:
  "htaccess_lines scenario_with_rules scenario_routes
   = [''Options -Indexes'', ''RewriteEngine On'',
      ''ErrorDocument 404 /errors/404.html'',
      ''RedirectMatch 301 ^/faq(/(index.html)?)?$ /about_this_project'',
      ''RedirectMatch 302 ^/github'' @ [backslash] @ ''b https://github.com/x'']"
  by (simp add: scenario_with_rules_def scenario_def scenario_routes_def model_defs)

text \<open>
  A regular expression with flags: \<^verbatim>\<open>slice(1, -1)\<close> cuts the last character of
  \<^verbatim>\<open>/source/flags\<close>, which is then the last flag and not the closing slash, so the slash
  and the other flags stay behind the pattern (the comment of line 159 says
  \<^verbatim>\<open>Remove slashes around regex\<close>).
\<close>

lemma translate_regex_flags_kept:
  "translate_regex \<lparr>source = ''a b'', flags = ''i''\<rparr> = ''a%20b/''
   \<and> translate_regex \<lparr>source = ''a b'', flags = ''gi''\<rparr> = ''a%20b/g''"
  by (simp add: model_defs)

lemma discovered_lines_eq:
  "discovered_lines cfg routes = concat (map (route_lines cfg) routes)"
proof -
  obtain redirected g where
    "run_sources cfg routes =
       ((customRules_source cfg, errorPages_lines cfg, concat (map (route_lines cfg) routes),
         redirected), g)"
    using run_sources_shape[of cfg routes] by blast
  then show ?thesis by (simp add: discovered_lines_def)
qed

lemma route_redirect_lines_start:
  "l \<in> set (route_redirect_lines r) \<Longrightarrow> startsWith l ''RedirectMatch 301 ^''"
proof -
  assume l: "l \<in> set (route_redirect_lines r)"
  have "route_redirect_lines r = []
        \<or> (\<exists>d. route_redirect_lines r = [''RedirectMatch 301 ^'' @ route r @ ''(/(index.html)?)?$ '' @ d])"
    by (simp add: route_redirect_lines_def split: option.splits)
  with l obtain d where "l = ''RedirectMatch 301 ^'' @ route r @ ''(/(index.html)?)?$ '' @ d"
    by auto
  then show ?thesis by (simp add: startsWith_def)
qed

lemma resolve_enabled_set: "enabled st \<noteq> None \<Longrightarrow> resolve_enabled cfg st = st"
  by (cases "enabled st") (simp_all add: resolve_enabled_def)

lemma run_sources_switch:
  "run_sources (cfg\<lparr>generateHtaccessFile := x\<rparr>) routes = run_sources cfg routes"
proof -
  have cb: "routes_callback (cfg\<lparr>generateHtaccessFile := x\<rparr>) = routes_callback cfg"
    by (intro ext) (simp add: routes_callback_def split: prod.split)
  have sel: "errorPages (cfg\<lparr>generateHtaccessFile := x\<rparr>) = errorPages cfg"
    "redirects (cfg\<lparr>generateHtaccessFile := x\<rparr>) = redirects cfg"
    "customRules (cfg\<lparr>generateHtaccessFile := x\<rparr>) = customRules cfg"
    by simp_all
  show ?thesis
    unfolding run_sources_def customRules_source_def errorPages_source_def
      routes_source_def redirects_source_def cb sel ..
qed

lemma config_setup_integration:
  "config_setup cfg config (integration, w)
   = (if config_output config = ''server''
      then (integration,
            w\<lparr>console := console w @ [(LogWarn, ''Cannot generate .htaccess file in SSR mode.'')]\<rparr>)
      else (integration\<lparr>assetsDir := Some
              (case adapter_name config of
                 None \<Rightarrow> outDir_path config
               | Some name \<Rightarrow>
                   if startsWith name ''@astrojs/vercel'' then vercel_static_dir config
                   else if name = ''@astrojs/cloudflare'' then cloudflare_dir config
                   else if name = ''@astrojs/node'' then build_client_dir config
                   else outDir_path config)\<rparr>, w))"
  by (simp add: config_setup_def resolve_enabled_def integration_def split: option.splits)

lemma build_done_switch:
  assumes "enabled st \<noteq> None"
  shows "build_done (cfg\<lparr>generateHtaccessFile := x\<rparr>) routes (st, w) = build_done cfg routes (st, w)"
  unfolding build_done_def htaccess_lines_def run_sources_switch
  by (simp add: resolve_enabled_set[OF assms])

lemma build_done_state:
  assumes "enabled st \<noteq> None"
  shows "fst (build_done cfg routes (st, w)) = st"
  unfolding build_done_def
  by (simp add: resolve_enabled_set[OF assms] Let_def split: option.splits)

lemma string_rules_no_conflict: "\<not> list_ex invalid_line_break (map string_rule ts)"
  by (induction ts) (auto simp: string_rule_def invalid_line_break_def)

lemma string_rule_line: "redirect_line (string_rule t) = verbatim_line t"
  by (cases t) (simp add: string_rule_def verbatim_line_def redirect_line_def resolved_match_def)

subsection \<open>C1: duplicate error codes\<close>

text \<open>
  C1. If two error-page rules share an HTTP error code, the run should be marked as a
  fatal duplicate-error conflict and write zero lines. The code does not do so: the
  test \<^verbatim>\<open>code in handledErrorCodes\<close> never holds for a number
  (\<open>in_handledErrorCodes_never\<close>). With two user error pages of code 404 both lines are
  written to the file; with two routes \<^verbatim>\<open>/404\<close> and no \<^verbatim>\<open>errorPages\<close> both lines are
  collected and the run is not marked as failed.
\<close>

theorem C1_duplicate_error_code_accepted:
  "files (snd (run_build
       (no_rules\<lparr>errorPages := Some [\<lparr>ep_code = 404, ep_document = ''/a''\<rparr>,
                                      \<lparr>ep_code = 404, ep_document = ''/b''\<rparr>]\<rparr>)
       static_config [] empty_world)) ''/site/dist/.htaccess''
   = Some (''ErrorDocument 404 /a.html'' @ [line_feed] @ ''ErrorDocument 404 /b.html'')
   \<and> htaccess_lines no_rules
         [\<lparr>route_type = ''page'', route = ''/404'', redirect = None\<rparr>,
          \<lparr>route_type = ''page'', route = ''/404'', redirect = None\<rparr>]
       = [''ErrorDocument 404 /404.html'', ''ErrorDocument 404 /404.html'']
   \<and> \<not> error (snd (run_sources no_rules
         [\<lparr>route_type = ''page'', route = ''/404'', redirect = None\<rparr>,
          \<lparr>route_type = ''page'', route = ''/404'', redirect = None\<rparr>]))"
  by (simp add: model_defs)

subsection \<open>C2: nothing is written after a fatal conflict\<close>

text \<open>
  C2. In every run in which a fatal conflict occurs (a duplicate error code, or a line
  feed in a translated regular expression) the accumulated lines should be discarded and
  no file written or appended. The code does not do so for a duplicate error code: the
  write of lines 179 to 183 is guarded by the flag \<^verbatim>\<open>error\<close>, which the test
  \<^verbatim>\<open>code in handledErrorCodes\<close> never sets (\<open>in_handledErrorCodes_never\<close>, the defect of
  C1). With a custom rule and two user error pages of code 500 the three lines are
  appended to the file that exists; with two page routes \<^verbatim>\<open>/410\<close> and no \<^verbatim>\<open>errorPages\<close>
  both lines are written. (For a line feed the guard holds:
  \<open>no_write_after_line_break\<close>.)
\<close>

theorem C2_duplicate_codes_file_written:
  "duplicate_error_code two_pages_500 []
   \<and> files (snd (run_build two_pages_500 static_config [] old_world)) ''/site/dist/.htaccess''
     = Some (''# old'' @ [line_feed] @ ''Options -Indexes'' @ [line_feed]
             @ ''ErrorDocument 500 /e.html'' @ [line_feed] @ ''ErrorDocument 500 /f.html'')
   \<and> duplicate_error_code no_rules
         [\<lparr>route_type = ''page'', route = ''/410'', redirect = None\<rparr>,
          \<lparr>route_type = ''page'', route = ''/410'', redirect = None\<rparr>]
   \<and> files (snd (run_build no_rules static_config
         [\<lparr>route_type = ''page'', route = ''/410'', redirect = None\<rparr>,
          \<lparr>route_type = ''page'', route = ''/410'', redirect = None\<rparr>] empty_world))
       ''/site/dist/.htaccess''
     = Some (''ErrorDocument 410 /410.html'' @ [line_feed] @ ''ErrorDocument 410 /410.html'')"
  by (simp add: duplicate_error_code_def error_page_codes_def is_error_route_def
        two_pages_500_def old_world_def model_defs)

subsection \<open>C3: the enable switch\<close>

text \<open>
  C3. If \<^verbatim>\<open>generateHtaccessFile\<close> resolves to false, no lines should be computed and no
  file written, the predicate being evaluated exactly once. The code does not do so:
  \<^verbatim>\<open>enabled\<close> starts as \<^verbatim>\<open>true\<close>, so with the option \<^verbatim>\<open>false\<close>, or a function returning
  \<^verbatim>\<open>false\<close>, the custom rule is written to the file, and the function is not called at
  all.
\<close>

theorem C3_disabled_switch_still_generates:
  "files (snd (run_build
       (no_rules\<lparr>generateHtaccessFile := Boolean False, customRules := Some [''Options -Indexes'']\<rparr>)
       static_config [] empty_world)) ''/site/dist/.htaccess''
   = Some ''Options -Indexes''
   \<and> files (snd (run_build
       (no_rules\<lparr>generateHtaccessFile := Function False, customRules := Some [''Options -Indexes'']\<rparr>)
       static_config [] empty_world)) ''/site/dist/.htaccess''
   = Some ''Options -Indexes''
   \<and> predicate_calls (fst (run_build
       (no_rules\<lparr>generateHtaccessFile := Function False, customRules := Some [''Options -Indexes'']\<rparr>)
       static_config [] empty_world)) = 0"
  by (simp add: model_defs)

subsection \<open>C4: the code of a user redirect\<close>

text \<open>
  As stated, C4 fails: the keyword \<^verbatim>\<open>permanent\<close> is written as it is, not as 301, so the
  rule with the keyword and the rule with the number give different lines.
\<close>

theorem C4_alias_not_mapped_counterexample:
  "htaccess_lines
     (no_rules\<lparr>redirects := Some [\<lparr>rd_code = Some Permanent, rd_match = StringMatch ''^/old$'',
                                     rd_url = ''/new''\<rparr>]\<rparr>) []
   = [''RedirectMatch permanent ^/old$ /new'']
   \<and> htaccess_lines
     (no_rules\<lparr>redirects := Some [\<lparr>rd_code = Some Code301, rd_match = StringMatch ''^/old$'',
                                     rd_url = ''/new''\<rparr>]\<rparr>) []
   = [''RedirectMatch 301 ^/old$ /new'']
   \<and> htaccess_lines
     (no_rules\<lparr>redirects := Some [\<lparr>rd_code = Some Permanent, rd_match = StringMatch ''^/old$'',
                                     rd_url = ''/new''\<rparr>]\<rparr>) []
   \<noteq> htaccess_lines
     (no_rules\<lparr>redirects := Some [\<lparr>rd_code = Some Code301, rd_match = StringMatch ''^/old$'',
                                     rd_url = ''/new''\<rparr>]\<rparr>) []"
  by (simp add: model_defs)

text \<open>
  C4, amended. For every user redirect that is emitted, the code written in the
  \<^verbatim>\<open>RedirectMatch\<close> line is the rule's code as it was given: a keyword (\<^verbatim>\<open>permanent\<close>,
  \<^verbatim>\<open>temp\<close>, \<^verbatim>\<open>seeother\<close>, \<^verbatim>\<open>gone\<close>) verbatim, a number in decimal, and 301 when the code
  is omitted; so a rule without a code and the same rule with the code 301 give the same
  line and the same state.
\<close>

theorem C4_code_written_as_given:
  "(\<not> error g \<and> \<not> invalid_line_break rd \<longrightarrow>
      fst (redirects_callback g rd)
      = ''RedirectMatch ''
        @ (case rd_code rd of
             None \<Rightarrow> ''301''
           | Some Permanent \<Rightarrow> ''permanent'' | Some Code301 \<Rightarrow> ''301''
           | Some Temp \<Rightarrow> ''temp'' | Some Code302 \<Rightarrow> ''302''
           | Some Seeother \<Rightarrow> ''seeother'' | Some Code303 \<Rightarrow> ''303''
           | Some Gone \<Rightarrow> ''gone'' | Some Code410 \<Rightarrow> ''410'')
        @ '' '' @ resolved_match (rd_match rd) @ '' '' @ rd_url rd)
   \<and> redirects_callback g (rd\<lparr>rd_code := None\<rparr>)
     = redirects_callback g (rd\<lparr>rd_code := Some Code301\<rparr>)"
proof -
  have code: "written_code (rd_code rd)
        = (case rd_code rd of
             None \<Rightarrow> ''301''
           | Some Permanent \<Rightarrow> ''permanent'' | Some Code301 \<Rightarrow> ''301''
           | Some Temp \<Rightarrow> ''temp'' | Some Code302 \<Rightarrow> ''302''
           | Some Seeother \<Rightarrow> ''seeother'' | Some Code303 \<Rightarrow> ''303''
           | Some Gone \<Rightarrow> ''gone'' | Some Code410 \<Rightarrow> ''410'')"
    by (simp add: written_code_def Number_toString_301 Number_toString_302 Number_toString_303
          Number_toString_410 split: option.splits RedirectCode.splits)
  have "fst (redirects_callback g rd) = redirect_line rd"
    if "\<not> error g" "\<not> invalid_line_break rd"
    using redirects_callback_line[OF that] by simp
  moreover have "redirects_callback g (rd\<lparr>rd_code := None\<rparr>)
     = redirects_callback g (rd\<lparr>rd_code := Some Code301\<rparr>)"
    by (cases "rd_match rd") (simp_all add: redirects_callback_def Let_def)
  ultimately show ?thesis
    unfolding redirect_line_def code by blast
qed

theorem C4_code_written_as_given_witness:
  "fst (redirects_callback fresh_generation
          \<lparr>rd_code = Some Gone, rd_match = StringMatch ''^/old$'', rd_url = ''/new''\<rparr>)
   = ''RedirectMatch gone ^/old$ /new''
   \<and> redirects_callback fresh_generation
          \<lparr>rd_code = None, rd_match = StringMatch ''^/old$'', rd_url = ''/new''\<rparr>
     = redirects_callback fresh_generation
          \<lparr>rd_code = Some Code301, rd_match = StringMatch ''^/old$'', rd_url = ''/new''\<rparr>"
  using C4_code_written_as_given[of fresh_generation
          "\<lparr>rd_code = Some Gone, rd_match = StringMatch ''^/old$'', rd_url = ''/new''\<rparr>"]
        C4_code_written_as_given[of fresh_generation
          "\<lparr>rd_code = None, rd_match = StringMatch ''^/old$'', rd_url = ''/new''\<rparr>"]
  by (simp add: fresh_generation_def invalid_line_break_def resolved_match_def)

subsection \<open>C5: the translation of a regular expression\<close>




subsection \<open>C6: the lines and their order\<close>

text \<open>
  C6. When no translated regular expression has a line feed, the lines of a generation
  are the custom rules as given, then the lines of the user error pages, then the lines
  of the routes in the order of the routes, then the lines of the user redirects; their
  number is the sum of the four. With an output directory they are appended to the file
  joined by line feeds; and when no line has a line feed of its own, cutting the text at
  the line feeds gives the lines back. (Duplicate error codes need not be excluded.)
\<close>

theorem C6_lines_in_source_order:
  assumes "\<not> line_break_conflict cfg"
  shows "htaccess_lines cfg routes
           = customRules_lines cfg @ errorPages_lines cfg
             @ concat (map (route_lines cfg) routes) @ redirects_lines cfg
         \<and> length (htaccess_lines cfg routes)
           = length (customRules_lines cfg) + length (errorPages_lines cfg)
             + length (concat (map (route_lines cfg) routes)) + length (redirects_lines cfg)
         \<and> (enabled st = Some True \<and> assetsDir st = Some dir \<and> dir \<noteq> [] \<longrightarrow>
              files (snd (build_done cfg routes (st, w)))
              = appendFile (pathPosix_join [dir, ''.htaccess''])
                  (Array_join (htaccess_lines cfg routes) [line_feed]) (files w))
         \<and> (htaccess_lines cfg routes \<noteq> []
              \<and> (\<forall>l\<in>set (htaccess_lines cfg routes). line_feed \<notin> set l) \<longrightarrow>
              split_at line_feed (Array_join (htaccess_lines cfg routes) [line_feed])
              = htaccess_lines cfg routes)"
proof -
  obtain redirected g where shape:
    "run_sources cfg routes =
       ((customRules_source cfg, errorPages_lines cfg, concat (map (route_lines cfg) routes),
         redirected), g)"
    "error g = line_break_conflict cfg"
    "\<not> line_break_conflict cfg \<longrightarrow> redirected = redirects_lines cfg"
    using run_sources_shape[of cfg routes] by blast
  with assms have r: "redirected = redirects_lines cfg" and g: "\<not> error g" by simp_all
  have custom: "customRules_source cfg = customRules_lines cfg"
    by (simp add: customRules_source_def customRules_lines_def)
  have lines: "htaccess_lines cfg routes
           = customRules_lines cfg @ errorPages_lines cfg
             @ concat (map (route_lines cfg) routes) @ redirects_lines cfg"
    by (simp add: htaccess_lines_def shape(1) r custom)
  have count: "length (htaccess_lines cfg routes)
           = length (customRules_lines cfg) + length (errorPages_lines cfg)
             + length (concat (map (route_lines cfg) routes)) + length (redirects_lines cfg)"
    unfolding lines by simp
  have no_error: "\<not> error (snd (run_sources cfg routes))" using g by (simp add: shape(1))
  have written: "files (snd (build_done cfg routes (st, w)))
              = appendFile (pathPosix_join [dir, ''.htaccess''])
                  (Array_join (htaccess_lines cfg routes) [line_feed]) (files w)"
    if "enabled st = Some True" "assetsDir st = Some dir" "dir \<noteq> []"
    using that no_error by (simp add: build_done_files resolve_enabled_def)
  have text_lines: "split_at line_feed (Array_join (htaccess_lines cfg routes) [line_feed])
              = htaccess_lines cfg routes"
    if "htaccess_lines cfg routes \<noteq> []" "\<forall>l\<in>set (htaccess_lines cfg routes). line_feed \<notin> set l"
    using that by (rule split_at_join)
  from lines count written text_lines show ?thesis by blast
qed

theorem C6_lines_in_source_order_witness:
  "\<not> line_break_conflict scenario_with_rules
   \<and> htaccess_lines scenario_with_rules scenario_routes
     = [''Options -Indexes'', ''RewriteEngine On'',
        ''ErrorDocument 404 /errors/404.html'',
        ''RedirectMatch 301 ^/faq(/(index.html)?)?$ /about_this_project'',
        ''RedirectMatch 302 ^/github'' @ [backslash] @ ''b https://github.com/x'']
   \<and> customRules_lines scenario_with_rules = [''Options -Indexes'', ''RewriteEngine On'']
   \<and> length (htaccess_lines scenario_with_rules scenario_routes) = 2 + 1 + 1 + 1
   \<and> files (snd (build_done scenario_with_rules scenario_routes
                    (integration\<lparr>assetsDir := Some ''/site/dist/''\<rparr>, empty_world)))
       ''/site/dist/.htaccess''
     = Some (''Options -Indexes'' @ [line_feed] @ ''RewriteEngine On'' @ [line_feed]
             @ ''ErrorDocument 404 /errors/404.html'' @ [line_feed]
             @ ''RedirectMatch 301 ^/faq(/(index.html)?)?$ /about_this_project'' @ [line_feed]
             @ ''RedirectMatch 302 ^/github'' @ [backslash] @ ''b https://github.com/x'')
   \<and> split_at line_feed (Array_join (htaccess_lines scenario_with_rules scenario_routes) [line_feed])
     = htaccess_lines scenario_with_rules scenario_routes"
proof -
  have ok: "\<not> line_break_conflict scenario_with_rules"
    by (simp add: scenario_with_rules_def scenario_def line_break_conflict_def
        invalid_line_break_def model_defs)
  note inst = C6_lines_in_source_order[OF ok, of scenario_routes
      "integration\<lparr>assetsDir := Some ''/site/dist/''\<rparr>" "''/site/dist/''" empty_world]
  have parts: "customRules_lines scenario_with_rules = [''Options -Indexes'', ''RewriteEngine On'']"
    "length (errorPages_lines scenario_with_rules) = 1"
    "length (concat (map (route_lines scenario_with_rules) scenario_routes)) = 1"
    "length (redirects_lines scenario_with_rules) = 1"
    by (simp_all add: scenario_with_rules_def scenario_def scenario_routes_def customRules_lines_def
        errorPages_lines_def route_lines_def route_redirect_lines_def redirects_lines_def)
  have no_lf: "\<forall>l\<in>set (htaccess_lines scenario_with_rules scenario_routes). line_feed \<notin> set l"
    unfolding scenario_with_rules_lines by (simp add: line_feed_def backslash_def)
  have ne: "htaccess_lines scenario_with_rules scenario_routes \<noteq> []"
    unfolding scenario_with_rules_lines by simp
  have path: "pathPosix_join [''/site/dist/'', ''.htaccess''] = ''/site/dist/.htaccess''"
    by (simp add: model_defs)
  have "files (snd (build_done scenario_with_rules scenario_routes
                    (integration\<lparr>assetsDir := Some ''/site/dist/''\<rparr>, empty_world)))
       ''/site/dist/.htaccess''
     = Some (Array_join (htaccess_lines scenario_with_rules scenario_routes) [line_feed])"
    using inst by (simp add: integration_def path appendFile_def empty_world_def)
  then have content: "files (snd (build_done scenario_with_rules scenario_routes
                    (integration\<lparr>assetsDir := Some ''/site/dist/''\<rparr>, empty_world)))
       ''/site/dist/.htaccess''
     = Some (''Options -Indexes'' @ [line_feed] @ ''RewriteEngine On'' @ [line_feed]
             @ ''ErrorDocument 404 /errors/404.html'' @ [line_feed]
             @ ''RedirectMatch 301 ^/faq(/(index.html)?)?$ /about_this_project'' @ [line_feed]
             @ ''RedirectMatch 302 ^/github'' @ [backslash] @ ''b https://github.com/x'')"
    unfolding scenario_with_rules_lines by simp
  have count: "length (htaccess_lines scenario_with_rules scenario_routes) = 2 + 1 + 1 + 1"
    using inst parts by simp
  have order: "htaccess_lines scenario_with_rules scenario_routes
     = [''Options -Indexes'', ''RewriteEngine On'',
        ''ErrorDocument 404 /errors/404.html'',
        ''RedirectMatch 301 ^/faq(/(index.html)?)?$ /about_this_project'',
        ''RedirectMatch 302 ^/github'' @ [backslash] @ ''b https://github.com/x'']"
    by (rule scenario_with_rules_lines)
  have roundtrip: "split_at line_feed (Array_join (htaccess_lines scenario_with_rules scenario_routes) [line_feed])
     = htaccess_lines scenario_with_rules scenario_routes"
    using inst ne no_lf by blast
  from ok order parts(1) count content roundtrip show ?thesis by blast
qed

subsection \<open>C7: automatic discovery of error pages\<close>

text \<open>
  C7. When \<^verbatim>\<open>errorPages\<close> is absent, the routes give, in their order, a redirect line
  for every redirect with a destination and an \<^verbatim>\<open>ErrorDocument\<close> line for every page whose
  route is a slash, a digit 3, 4 or 5 and two more digits: the code is the three digits
  and \<^verbatim>\<open>.html\<close> is appended to the route unless it ends with it. When \<^verbatim>\<open>errorPages\<close>
  is given, also as the empty list, the routes give the redirect lines only.
\<close>

theorem C7_automatic_discovery:
  "(errorPages cfg = None \<longrightarrow>
      discovered_lines cfg routes
      = concat (map (\<lambda>r. route_redirect_lines r @ route_error_lines r) routes))
   \<and> (errorPages cfg \<noteq> None \<longrightarrow>
      discovered_lines cfg routes = concat (map route_redirect_lines routes)
      \<and> (\<forall>l\<in>set (discovered_lines cfg routes). startsWith l ''RedirectMatch 301 ^''))"
proof -
  have absent: "discovered_lines cfg routes
      = concat (map (\<lambda>r. route_redirect_lines r @ route_error_lines r) routes)"
    if "errorPages cfg = None"
    using that by (simp add: discovered_lines_eq route_lines_def[abs_def])
  have given: "discovered_lines cfg routes = concat (map route_redirect_lines routes)"
    if "errorPages cfg \<noteq> None"
  proof -
    from that obtain pages where "errorPages cfg = Some pages" by (cases "errorPages cfg") auto
    then show ?thesis by (simp add: discovered_lines_eq route_lines_def[abs_def])
  qed
  have "\<forall>l\<in>set (concat (map route_redirect_lines routes)). startsWith l ''RedirectMatch 301 ^''"
    using route_redirect_lines_start by auto
  with absent given show ?thesis by simp
qed

theorem C7_automatic_discovery_witness:
  "discovered_lines no_rules discovery_routes
   = [''ErrorDocument 404 /404.html'', ''RedirectMatch 301 ^/faq(/(index.html)?)?$ /about'',
      ''ErrorDocument 500 /500.html'']
   \<and> discovered_lines (no_rules\<lparr>errorPages := Some []\<rparr>) discovery_routes
     = [''RedirectMatch 301 ^/faq(/(index.html)?)?$ /about'']"
proof -
  have rl: "concat (map (\<lambda>r. route_redirect_lines r @ route_error_lines r) discovery_routes)
        = [''ErrorDocument 404 /404.html'', ''RedirectMatch 301 ^/faq(/(index.html)?)?$ /about'',
           ''ErrorDocument 500 /500.html'']"
    by (simp add: discovery_routes_def route_redirect_lines_def route_error_lines_def
          is_error_route_def is_digit_def decimal_digits_def endsWith_def)
  have rr: "concat (map route_redirect_lines discovery_routes)
        = [''RedirectMatch 301 ^/faq(/(index.html)?)?$ /about'']"
    by (simp add: discovery_routes_def route_redirect_lines_def)
  from C7_automatic_discovery[of no_rules discovery_routes]
  have a: "discovered_lines no_rules discovery_routes
        = concat (map (\<lambda>r. route_redirect_lines r @ route_error_lines r) discovery_routes)"
    by (simp add: no_rules_def)
  from C7_automatic_discovery[of "no_rules\<lparr>errorPages := Some []\<rparr>" discovery_routes]
  have b: "discovered_lines (no_rules\<lparr>errorPages := Some []\<rparr>) discovery_routes
        = concat (map route_redirect_lines discovery_routes)"
    by simp
  from a b rl rr show ?thesis by simp
qed

subsection \<open>C8: the normalization of a document path is idempotent\<close>

text \<open>
  C8. The document-path normalization of a user error page (line 111: append
  \<^verbatim>\<open>.html\<close> unless present, then join with the root, which gives one leading slash and
  collapses repeated slashes) is idempotent: for every string, normalizing twice gives
  what normalizing once gives, and \<^verbatim>\<open>/404\<close> goes to \<^verbatim>\<open>/404.html\<close>, which goes to itself.
\<close>

theorem C8_document_path_idempotent:
  "document_path (document_path d) = document_path d
   \<and> document_path ''/404'' = ''/404.html''
   \<and> document_path ''/404.html'' = ''/404.html''"
proof -
  obtain T x where "document_path d = CHR ''/'' # Array_join (T @ [x]) ''/''"
    and "\<forall>y\<in>set (T @ [x]). plain_segment y \<and> CHR ''/'' \<notin> set y"
    and "endsWith x ''.html''"
    using document_path_shape[of d] by blast
  then have "document_path (document_path d) = document_path d"
    using document_path_fixed[of T x] by simp
  moreover have "document_path ''/404'' = ''/404.html''"
    by (simp add: document_path_def pathPosix_join_def posix_normalize_def endsWith_def)
  moreover have "document_path ''/404.html'' = ''/404.html''"
    by (simp add: document_path_def pathPosix_join_def posix_normalize_def endsWith_def)
  ultimately show ?thesis by simp
qed

theorem C8_document_path_idempotent_witness:
  "document_path (document_path ''errors//404'') = document_path ''errors//404''
   \<and> document_path ''errors//404'' = ''/errors/404.html''"
  using C8_document_path_idempotent[of "''errors//404''"]
  by (simp add: document_path_def pathPosix_join_def posix_normalize_def endsWith_def)

subsection \<open>C9: the enable switch has no effect\<close>

text \<open>
  C9. Two builds that differ only in \<^verbatim>\<open>generateHtaccessFile\<close> end in the same state, the
  same files and the same log: \<^verbatim>\<open>enabled\<close> starts as \<^verbatim>\<open>true\<close> and stays so, and a
  function given as the option is never called.
\<close>

theorem C9_enable_switch_has_no_effect:
  "run_build (cfg\<lparr>generateHtaccessFile := x\<rparr>) config routes w
   = run_build (cfg\<lparr>generateHtaccessFile := y\<rparr>) config routes w
   \<and> predicate_calls (fst (run_build cfg config routes w)) = 0
   \<and> enabled (fst (run_build cfg config routes w)) = Some True"
proof -
  obtain st w' where s: "config_setup cfg config (integration, w) = (st, w')"
    by (cases "config_setup cfg config (integration, w)")
  then have "st = integration \<or> (\<exists>dir. st = integration\<lparr>assetsDir := Some dir\<rparr>)"
    unfolding config_setup_integration by (auto split: if_splits)
  then have st: "enabled st = Some True" "predicate_calls st = 0"
    by (auto simp: integration_def)
  have same: "config_setup (cfg\<lparr>generateHtaccessFile := z\<rparr>) config (integration, w) = (st, w')" for z
    using s by (simp add: config_setup_integration)
  have "run_build (cfg\<lparr>generateHtaccessFile := z\<rparr>) config routes w = build_done cfg routes (st, w')" for z
    using st(1) by (simp add: run_build_def same build_done_switch)
  then have eq: "run_build (cfg\<lparr>generateHtaccessFile := x\<rparr>) config routes w
   = run_build (cfg\<lparr>generateHtaccessFile := y\<rparr>) config routes w"
    by simp
  have "fst (run_build cfg config routes w) = st"
    using st(1) by (simp add: run_build_def s build_done_state)
  with st eq show ?thesis by simp
qed

theorem C9_enable_switch_has_no_effect_witness:
  "run_build (no_rules\<lparr>customRules := Some [''Options -Indexes''], generateHtaccessFile := Boolean False\<rparr>)
     static_config [] empty_world
   = run_build (no_rules\<lparr>customRules := Some [''Options -Indexes''], generateHtaccessFile := Function True\<rparr>)
     static_config [] empty_world
   \<and> files (snd (run_build
        (no_rules\<lparr>customRules := Some [''Options -Indexes''], generateHtaccessFile := Boolean False\<rparr>)
        static_config [] empty_world)) ''/site/dist/.htaccess'' = Some ''Options -Indexes''
   \<and> predicate_calls (fst (run_build
        (no_rules\<lparr>customRules := Some [''Options -Indexes''], generateHtaccessFile := Function True\<rparr>)
        static_config [] empty_world)) = 0"
proof -
  let ?cfg = "no_rules\<lparr>customRules := Some [''Options -Indexes'']\<rparr>"
  have written: "files (snd (run_build (?cfg\<lparr>generateHtaccessFile := Boolean False\<rparr>)
        static_config [] empty_world)) ''/site/dist/.htaccess'' = Some ''Options -Indexes''"
    by (simp add: model_defs)
  have same: "run_build (?cfg\<lparr>generateHtaccessFile := Boolean False\<rparr>) static_config [] empty_world
        = run_build (?cfg\<lparr>generateHtaccessFile := Function True\<rparr>) static_config [] empty_world"
    using C9_enable_switch_has_no_effect[where cfg = ?cfg and x = "Boolean False"
         and y = "Function True" and config = static_config and routes = "[]" and w = empty_world]
    by (rule conjunct1)
  have calls: "predicate_calls (fst (run_build (?cfg\<lparr>generateHtaccessFile := Function True\<rparr>)
        static_config [] empty_world)) = 0"
    using C9_enable_switch_has_no_effect[where cfg = "?cfg\<lparr>generateHtaccessFile := Function True\<rparr>"
         and config = static_config and routes = "[]" and w = empty_world]
    by blast
  from same written calls show ?thesis by (intro conjI)
qed

subsection \<open>C10: a literal string as the match of a user redirect\<close>

text \<open>
  C10. A user redirect with a literal string as its match gives its
  \<^verbatim>\<open>RedirectMatch\<close> line with the string as it is and leaves the state of the generation
  as it was, whatever the string. When every user redirect is of this kind, the run is
  not marked as failed and, with an output directory, the lines are appended to the
  file. This holds also for a string with a line feed: the line then has a line feed
  inside.
\<close>

theorem C10_string_match_verbatim:
  assumes "redirects cfg = Some (map string_rule ts)"
  shows "(\<not> error g \<longrightarrow> redirects_callback g (string_rule t) = (verbatim_line t, g))
         \<and> redirected_lines cfg routes = map verbatim_line ts
         \<and> \<not> error (snd (run_sources cfg routes))
         \<and> (enabled st = Some True \<and> assetsDir st = Some dir \<and> dir \<noteq> [] \<longrightarrow>
              files (snd (build_done cfg routes (st, w)))
              = appendFile (pathPosix_join [dir, ''.htaccess''])
                  (Array_join (htaccess_lines cfg routes) [line_feed]) (files w))"
proof -
  have ok: "\<not> line_break_conflict cfg"
    using assms string_rules_no_conflict[of ts] by (simp add: line_break_conflict_def)
  obtain redirected final where shape:
    "run_sources cfg routes =
       ((customRules_source cfg, errorPages_lines cfg, concat (map (route_lines cfg) routes),
         redirected), final)"
    "error final = line_break_conflict cfg"
    "\<not> line_break_conflict cfg \<longrightarrow> redirected = redirects_lines cfg"
    using run_sources_shape[of cfg routes] by blast
  with ok have r: "redirected = redirects_lines cfg" and final: "\<not> error final" by simp_all
  have "redirects_lines cfg = map verbatim_line ts"
    using assms by (simp add: redirects_lines_def string_rule_line)
  with r have lines: "redirected_lines cfg routes = map verbatim_line ts"
    by (simp add: redirected_lines_def shape(1))
  have no_error: "\<not> error (snd (run_sources cfg routes))" using final by (simp add: shape(1))
  have "files (snd (build_done cfg routes (st, w)))
              = appendFile (pathPosix_join [dir, ''.htaccess''])
                  (Array_join (htaccess_lines cfg routes) [line_feed]) (files w)"
    if "enabled st = Some True" "assetsDir st = Some dir" "dir \<noteq> []"
    using that no_error by (simp add: build_done_files resolve_enabled_def)
  moreover have "redirects_callback g (string_rule t) = (verbatim_line t, g)" if "\<not> error g"
  proof -
    have "\<not> invalid_line_break (string_rule t)"
      by (cases t) (simp add: string_rule_def invalid_line_break_def)
    from redirects_callback_line[OF that this] show ?thesis by (simp add: string_rule_line)
  qed
  ultimately show ?thesis using lines no_error by simp
qed

theorem C10_string_match_verbatim_witness:
  "redirected_lines
     (no_rules\<lparr>redirects := Some [\<lparr>rd_code = None, rd_match = StringMatch (''^/a'' @ [line_feed] @ ''b$''),
                                     rd_url = ''/new''\<rparr>]\<rparr>) []
   = [''RedirectMatch 301 ^/a'' @ [line_feed] @ ''b$ /new'']
   \<and> \<not> error (snd (run_sources
       (no_rules\<lparr>redirects := Some [\<lparr>rd_code = None, rd_match = StringMatch (''^/a'' @ [line_feed] @ ''b$''),
                                       rd_url = ''/new''\<rparr>]\<rparr>) []))
   \<and> files (snd (build_done
       (no_rules\<lparr>redirects := Some [\<lparr>rd_code = None, rd_match = StringMatch (''^/a'' @ [line_feed] @ ''b$''),
                                       rd_url = ''/new''\<rparr>]\<rparr>) []
       (integration\<lparr>assetsDir := Some ''/site/dist/''\<rparr>, empty_world))) ''/site/dist/.htaccess''
     = Some (''RedirectMatch 301 ^/a'' @ [line_feed] @ ''b$ /new'')"
proof -
  let ?cfg = "no_rules\<lparr>redirects := Some [\<lparr>rd_code = None, rd_match = StringMatch (''^/a'' @ [line_feed] @ ''b$''),
                                     rd_url = ''/new''\<rparr>]\<rparr>"
  have rules: "redirects ?cfg = Some (map string_rule [(None, ''^/a'' @ [line_feed] @ ''b$'', ''/new'')])"
    by (simp add: string_rule_def no_rules_def)
  note inst = C10_string_match_verbatim[OF rules, where routes = "[]"
      and st = "integration\<lparr>assetsDir := Some ''/site/dist/''\<rparr>"
      and dir = "''/site/dist/''" and w = empty_world]
  have l: "redirected_lines ?cfg [] = [''RedirectMatch 301 ^/a'' @ [line_feed] @ ''b$ /new'']"
    using inst by (simp add: verbatim_line_def written_code_def Number_toString_301)
  have e: "\<not> error (snd (run_sources ?cfg []))" using inst by blast
  have all: "htaccess_lines ?cfg [] = [''RedirectMatch 301 ^/a'' @ [line_feed] @ ''b$ /new'']"
    by (simp add: model_defs)
  have path: "pathPosix_join [''/site/dist/'', ''.htaccess''] = ''/site/dist/.htaccess''"
    by (simp add: model_defs)
  have "files (snd (build_done ?cfg [] (integration\<lparr>assetsDir := Some ''/site/dist/''\<rparr>, empty_world)))
          ''/site/dist/.htaccess''
        = Some (Array_join (htaccess_lines ?cfg []) [line_feed])"
    using inst by (simp add: integration_def path appendFile_def empty_world_def)
  with l e all show ?thesis by simp
qed


end
